theory Spec2Isabelle
  imports Complex_Main "HOL-Library.AList"
begin

section \<open>Python values used by the routes\<close>

text \<open>
  A \<open>datetime.date\<close> is modelled by its proleptic Gregorian ordinal
  (\<open>date.toordinal()\<close>): 0001-01-01 is 1 and 9999-12-31 is 3652059. Adding a
  \<open>timedelta\<close> whose result leaves that range raises \<open>OverflowError\<close>.
\<close>

type_synonym date = int

definition MINORDINAL :: int where
  "MINORDINAL = 1"

definition MAXORDINAL :: int where
  "MAXORDINAL = 3652059"

text \<open>
  The ways a route can fail: the 400 response \<open>{"error": msg}\<close> (the
  specification's validation error), or an exception that no handler of the route
  catches.
\<close>

datatype error = BadRequest string | AttributeError | TypeError | OverflowError

definition date_add_days :: "date \<Rightarrow> int \<Rightarrow> error + date" where
  "date_add_days d n =
     (if MINORDINAL \<le> d + n \<and> d + n \<le> MAXORDINAL then Inr (d + n) else Inl OverflowError)"

text \<open>
  The values a decoded JSON body is made of. A dictionary is a key-distinct association
  list; its keys are strings when it comes from JSON, and \<open>save_habits\<close> also looks
  an integer key up. A float is represented by the number it denotes.
\<close>

datatype pykey = KStr string | KInt int

datatype pyval =
    PNone
  | PBool bool
  | PInt int
  | PFloat rat
  | PStr string
  | PList "pyval list"
  | PDict "(pykey \<times> pyval) list"

fun truthy :: "pyval \<Rightarrow> bool" where
  "truthy PNone = False"
| "truthy (PBool b) = b"
| "truthy (PInt n) = (n \<noteq> 0)"
| "truthy (PFloat x) = (x \<noteq> 0)"
| "truthy (PStr s) = (s \<noteq> [])"
| "truthy (PList xs) = (xs \<noteq> [])"
| "truthy (PDict kvs) = (kvs \<noteq> [])"

text \<open>\<open>d.get(k)\<close>: the value under \<open>k\<close>, \<open>None\<close> when the key is absent.\<close>

definition dict_get :: "(pykey \<times> pyval) list \<Rightarrow> pykey \<Rightarrow> pyval" where
  "dict_get kvs k = (case map_of kvs k of None \<Rightarrow> PNone | Some v \<Rightarrow> v)"

text \<open>\<open>a or b\<close>: the first operand when it is truthy, the second otherwise.\<close>

definition py_or :: "pyval \<Rightarrow> pyval \<Rightarrow> pyval" where
  "py_or a b = (if truthy a then a else b)"

text \<open>\<open>str(n)\<close> for an integer: its decimal digits, with a minus sign when negative.\<close>

definition digit_char :: "nat \<Rightarrow> char" where
  "digit_char n = char_of (48 + n)"

fun str_nat :: "nat \<Rightarrow> string" where
  "str_nat n = (if n < 10 then [digit_char n] else str_nat (n div 10) @ [digit_char (n mod 10)])"

definition str :: "int \<Rightarrow> string" where
  "str i = (if i < 0 then CHR ''-'' # str_nat (nat (- i)) else str_nat (nat i))"

text \<open>
  \<open>s.lower()\<close>. A string is a list of characters with code points below 256; the
  cased ones are A-Z and the Latin-1 capitals 192-222 (215, the multiplication sign, has
  no case), each 32 below its lower-case form.
\<close>

definition lower_char :: "char \<Rightarrow> char" where
  "lower_char c =
     (let n = (of_char c :: nat)
      in if (65 \<le> n \<and> n \<le> 90) \<or> (192 \<le> n \<and> n \<le> 222 \<and> n \<noteq> 215) then char_of (n + 32) else c)"

definition lower :: "string \<Rightarrow> string" where
  "lower s = map lower_char s"

text \<open>
  A dict comprehension \<open>{k: v for ...}\<close>: a later pair replaces the value of an
  earlier one with the same key and keeps its position.
\<close>

definition dict_of :: "('k \<times> 'v) list \<Rightarrow> ('k \<times> 'v) list" where
  "dict_of kvs = fold (\<lambda>(k, v) d. AList.update k v d) kvs []"

section \<open>Database models\<close>

text \<open>
  The tables \<open>habits\<close> and \<open>habit_entries\<close>, each the list of its rows in the
  order the store returns them. The surrogate key \<open>HabitEntry.id\<close> is assigned by
  the store and no route reads it; a row is its remaining columns. \<open>Habit.id\<close> and
  \<open>Habit.name\<close> are the fields \<open>h_id\<close> and \<open>h_name\<close>.
\<close>

record Habit =
  h_id :: int
  h_name :: string

record HabitEntry =
  user_id :: int
  habit_id :: int
  date :: date
  completed :: bool

record db =
  habits :: "Habit list"
  habit_entries :: "HabitEntry list"

text \<open>The constraint \<open>user_habit_date_unique\<close> of \<open>habit_entries\<close>.\<close>

definition entry_key :: "HabitEntry \<Rightarrow> int \<times> int \<times> date" where
  "entry_key e = (user_id e, habit_id e, date e)"

definition user_habit_date_unique :: "HabitEntry list \<Rightarrow> bool" where
  "user_habit_date_unique es = distinct (map entry_key es)"

text \<open>The primary key of \<open>habits\<close>.\<close>

definition habit_primary_key :: "Habit list \<Rightarrow> bool" where
  "habit_primary_key hs = distinct (map h_id hs)"

text \<open>\<open>Habit.query.order_by(Habit.id).all()\<close>\<close>

definition habits_by_id :: "db \<Rightarrow> Habit list" where
  "habits_by_id s = sort_key h_id (habits s)"

text \<open>\<open>HabitEntry.query.filter_by(user_id=u, date=d).all()\<close>\<close>

definition entries_on :: "db \<Rightarrow> int \<Rightarrow> date \<Rightarrow> HabitEntry list" where
  "entries_on s u d = filter (\<lambda>e. user_id e = u \<and> date e = d) (habit_entries s)"

section \<open>Utility functions\<close>

definition default_habits :: "string list" where
  "default_habits =
     [''Wake early'', ''Hydrate'', ''Read'', ''Exercise'', ''Pray'', ''Plan day'',
      ''Sleep Well'', ''Learn'', ''Eat Healthy'', ''Limit screentime'', ''Journal'',
      ''Gratitude'', ''Clean room'', ''Family time'', ''Walk'']"

text \<open>
  \<open>seed_habits\<close> fills an empty \<open>habits\<close> table; the store numbers the new rows
  from 1 in the order they are added.
\<close>

definition seed_habits :: "db \<Rightarrow> db" where
  "seed_habits s =
     (if length (habits s) = 0
      then s\<lparr>habits := map (\<lambda>(i, n). \<lparr>h_id = i, h_name = n\<rparr>)
                          (zip [1 .. int (length default_habits)] default_habits)\<rparr>
      else s)"

text \<open>
  \<open>parse_date\<close>. The library call \<open>datetime.strptime(s, "%Y-%m-%d").date()\<close> is
  the parameter \<open>strptime\<close>, \<open>None\<close> where it raises \<open>ValueError\<close>; the result
  \<open>Inl msg\<close> is the \<open>ValueError(msg)\<close> that \<open>parse_date\<close> raises.
\<close>

definition parse_date :: "(string \<Rightarrow> date option) \<Rightarrow> string \<Rightarrow> string + date" where
  "parse_date strptime date_str =
     (case strptime date_str of
        Some d \<Rightarrow> Inr d
      | None \<Rightarrow> Inl ''Date must be in YYYY-MM-DD format'')"

text \<open>
  The optional \<open>date\<close> and \<open>end_date\<close> query parameters: today (server
  time) when the parameter is absent or empty.
\<close>

definition date_arg :: "(string \<Rightarrow> date option) \<Rightarrow> date \<Rightarrow> string option \<Rightarrow> string + date" where
  "date_arg strptime today date_str =
     (case date_str of
        None \<Rightarrow> Inr today
      | Some ds \<Rightarrow> if ds \<noteq> [] then parse_date strptime ds else Inr today)"

section \<open>Routes\<close>

subsection \<open>GET /habits\<close>

record habit_status =
  r_id :: int
  r_name :: string
  r_completed :: bool

definition get_habits ::
  "(string \<Rightarrow> date option) \<Rightarrow> date \<Rightarrow> db \<Rightarrow> int \<Rightarrow> string option \<Rightarrow> error + date \<times> habit_status list"
where
  "get_habits strptime today s uid date_str =
     (case date_arg strptime today date_str of
        Inl msg \<Rightarrow> Inl (BadRequest msg)
      | Inr target_date \<Rightarrow>
          (let hs = habits_by_id s;
               entries_by_habit = dict_of (map (\<lambda>entry. (habit_id entry, entry)) (entries_on s uid target_date))
           in Inr (target_date,
                   map (\<lambda>habit.
                          \<lparr>r_id = h_id habit, r_name = h_name habit,
                           r_completed = (case map_of entries_by_habit (h_id habit) of
                                            Some entry \<Rightarrow> completed entry
                                          | None \<Rightarrow> False)\<rparr>) hs)))"

subsection \<open>POST /habits\<close>

text \<open>\<open>bool(completions.get(str(habit.id)) or completions.get(habit.id))\<close>\<close>

definition desired :: "(pykey \<times> pyval) list \<Rightarrow> int \<Rightarrow> bool" where
  "desired completions i =
     truthy (py_or (dict_get completions (KStr (str i))) (dict_get completions (KInt i)))"

text \<open>
  The body of the loop on \<open>habits\<close>: the first row of the user, habit and date gets
  the new flag; when there is none, a new row is added.
\<close>

fun upsert :: "int \<Rightarrow> int \<Rightarrow> date \<Rightarrow> bool \<Rightarrow> HabitEntry list \<Rightarrow> HabitEntry list" where
  "upsert u h d c [] = [\<lparr>user_id = u, habit_id = h, date = d, completed = c\<rparr>]"
| "upsert u h d c (e # es) =
     (if user_id e = u \<and> habit_id e = h \<and> date e = d
      then e\<lparr>completed := c\<rparr> # es
      else e # upsert u h d c es)"

fun save_loop ::
  "int \<Rightarrow> date \<Rightarrow> (pykey \<times> pyval) list \<Rightarrow> Habit list \<Rightarrow> HabitEntry list \<times> nat \<Rightarrow> HabitEntry list \<times> nat"
where
  "save_loop u d completions [] (es, completed_count) = (es, completed_count)"
| "save_loop u d completions (habit # hs) (es, completed_count) =
     (let c = desired completions (h_id habit)
      in save_loop u d completions hs
           (upsert u (h_id habit) d c es, if c then completed_count + 1 else completed_count))"

definition is_dict :: "pyval \<Rightarrow> bool" where
  "is_dict v = (case v of PDict kvs \<Rightarrow> True | _ \<Rightarrow> False)"

definition dict_items :: "pyval \<Rightarrow> (pykey \<times> pyval) list" where
  "dict_items v = (case v of PDict kvs \<Rightarrow> kvs | _ \<Rightarrow> [])"

text \<open>
  The part of \<open>save_habits\<close> after validation. A float is modelled by the rational it
  stands for, so the percentage is the exact quotient.
\<close>

definition save_completions ::
  "db \<Rightarrow> int \<Rightarrow> date \<Rightarrow> (pykey \<times> pyval) list \<Rightarrow> (string \<times> rat) \<times> db"
where
  "save_completions s uid target_date completions =
     (let hs = habits_by_id s;
          (es, completed_count) = save_loop uid target_date completions hs (habit_entries s, 0);
          percentage = (if hs \<noteq> [] then of_nat completed_count / of_nat (length hs) * 100 else 0)
      in ((''Habits saved.'', percentage), s\<lparr>habit_entries := es\<rparr>))"

text \<open>
  \<open>body\<close> is what \<open>request.get_json()\<close> returned. The result pairs the response
  with the database after the call.
\<close>

definition save_habits ::
  "(string \<Rightarrow> date option) \<Rightarrow> db \<Rightarrow> int \<Rightarrow> pyval \<Rightarrow> (error + string \<times> rat) \<times> db"
where
  "save_habits strptime s uid body =
     (case (if truthy body then body else PDict []) of
        PDict data \<Rightarrow>
          (let date_str = dict_get data (KStr ''date'');
               completions = dict_get data (KStr ''completions'')
           in if \<not> truthy date_str \<or> \<not> is_dict completions
              then (Inl (BadRequest ''Invalid payload. 'date' and 'completions' are required.''), s)
              else (case date_str of
                      PStr ds \<Rightarrow>
                        (case parse_date strptime ds of
                           Inl msg \<Rightarrow> (Inl (BadRequest msg), s)
                         | Inr target_date \<Rightarrow>
                             (case save_completions s uid target_date (dict_items completions) of
                                (resp, s') \<Rightarrow> (Inr resp, s')))
                    | _ \<Rightarrow> (Inl TypeError, s)))
      | _ \<Rightarrow> (Inl AttributeError, s))"

subsection \<open>GET /progress\<close>

record stats =
  s_id :: int
  s_name :: string
  completed_days :: nat
  total_days :: nat

record habit_progress = stats +
  percentage :: rat

record progress_response =
  resp_start_date :: date
  resp_end_date :: date
  resp_period :: string
  resp_habits :: "habit_progress list"

text \<open>
  The loop on \<open>habits\<close> for one day. \<open>habit_stats\<close> holds a key for every habit of
  the loop, so \<open>habit_stats[habit.id]\<close> finds its entry.
\<close>

fun count_day :: "(int \<times> bool) list \<Rightarrow> Habit list \<Rightarrow> (int \<times> stats) list \<Rightarrow> (int \<times> stats) list" where
  "count_day entries_map [] habit_stats = habit_stats"
| "count_day entries_map (habit # hs) habit_stats =
     count_day entries_map hs
       (AList.map_entry (h_id habit)
          (\<lambda>st. st\<lparr>total_days := total_days st + 1,
                    completed_days := (if map_of entries_map (h_id habit) = Some True
                                       then completed_days st + 1 else completed_days st)\<rparr>)
          habit_stats)"

text \<open>The loop \<open>while current_date <= end_date\<close>.\<close>

function count_days ::
  "db \<Rightarrow> int \<Rightarrow> Habit list \<Rightarrow> date \<Rightarrow> date \<Rightarrow> (int \<times> stats) list \<Rightarrow> error + (int \<times> stats) list"
where
  "count_days s uid hs current_date end_date habit_stats =
     (if current_date \<le> end_date
      then (let entries = entries_on s uid current_date;
                entries_map = dict_of (map (\<lambda>entry. (habit_id entry, completed entry)) entries);
                habit_stats' = count_day entries_map hs habit_stats
            in case date_add_days current_date 1 of
                 Inl err \<Rightarrow> Inl err
               | Inr next_date \<Rightarrow> count_days s uid hs next_date end_date habit_stats')
      else Inr habit_stats)"
  by pat_completeness auto
termination
  by (relation "measure (\<lambda>(s, uid, hs, current_date, end_date, habit_stats). nat (end_date + 1 - current_date))")
     (auto simp: date_add_days_def split: if_splits)

text \<open>
  \<open>round(x, 2)\<close> on the rational a float stands for: the nearest multiple of 1/100,
  a tie going to the even one.
\<close>

definition round_half_even :: "rat \<Rightarrow> int" where
  "round_half_even x =
     (let f = \<lfloor>x\<rfloor>; r = x - of_int f
      in if r < 1 / 2 then f else if 1 / 2 < r then f + 1 else if even f then f else f + 1)"

definition round2 :: "rat \<Rightarrow> rat" where
  "round2 x = of_int (round_half_even (x * 100)) / 100"

definition with_percentage :: "stats \<Rightarrow> habit_progress" where
  "with_percentage st =
     stats.extend st
       (habit_progress.fields
          (if total_days st > 0
           then round2 (of_nat (completed_days st) / of_nat (total_days st) * 100)
           else 0))"

definition progress ::
  "(string \<Rightarrow> date option) \<Rightarrow> date \<Rightarrow> db \<Rightarrow> int \<Rightarrow> string option \<Rightarrow> string option
     \<Rightarrow> error + progress_response"
where
  "progress strptime today s uid period_arg end_date_str =
     (let period = lower (case period_arg of None \<Rightarrow> ''weekly'' | Some p \<Rightarrow> p)
      in case date_arg strptime today end_date_str of
           Inl msg \<Rightarrow> Inl (BadRequest msg)
         | Inr end_date \<Rightarrow>
             (case (if period = ''weekly'' then date_add_days end_date (- 6)
                    else if period = ''monthly'' then date_add_days end_date (- 29)
                    else Inl (BadRequest ''Period must be 'weekly' or 'monthly'.'')) of
                Inl err \<Rightarrow> Inl err
              | Inr start_date \<Rightarrow>
                  (let hs = habits_by_id s;
                       habit_stats =
                         dict_of (map (\<lambda>habit. (h_id habit,
                                                 \<lparr>s_id = h_id habit, s_name = h_name habit,
                                                  completed_days = 0, total_days = 0\<rparr>)) hs)
                   in case count_days s uid hs start_date end_date habit_stats of
                        Inl err \<Rightarrow> Inl err
                      | Inr counted \<Rightarrow>
                          Inr \<lparr>resp_start_date = start_date, resp_end_date = end_date,
                               resp_period = period,
                               resp_habits = map (\<lambda>(k, st). with_percentage st) counted\<rparr>)))"

section \<open>Notions for the proofs\<close>

text \<open>
  For the proofs: what a day adds to the statistics of one habit, and the dictionary
  \<open>entries_map\<close> of a day.
\<close>

definition tally :: "(int \<times> bool) list \<Rightarrow> int \<Rightarrow> stats \<Rightarrow> stats" where
  "tally entries_map k st =
     st\<lparr>total_days := total_days st + 1,
        completed_days := (if map_of entries_map k = Some True
                           then completed_days st + 1 else completed_days st)\<rparr>"

definition day_map :: "db \<Rightarrow> int \<Rightarrow> date \<Rightarrow> (int \<times> bool) list" where
  "day_map s u d = dict_of (map (\<lambda>entry. (habit_id entry, completed entry)) (entries_on s u d))"

section \<open>A sample run\<close>

text \<open>
  The dates of the sample requests, as \<open>strptime\<close> reads them: 2024-01-01 is day
  738886, 2024-01-07 is day 738892, and 0001-01-03 and 0001-01-15 are days 3 and 15.
\<close>

definition sample_strptime :: "string \<Rightarrow> date option" where
  "sample_strptime ds =
     (if ds = ''2024-01-01'' then Some 738886
      else if ds = ''2024-01-07'' then Some 738892
      else if ds = ''0001-01-03'' then Some 3
      else if ds = ''0001-01-15'' then Some 15
      else None)"

text \<open>The database after \<open>initialize_database\<close>: the seeded catalog and no entries.\<close>

definition seeded :: db where
  "seeded = seed_habits \<lparr>habits = [], habit_entries = []\<rparr>"

text \<open>\<open>{"date": "2024-01-01", "completions": {"1": true, "2": true}}\<close>\<close>

definition sample_completions :: "(pykey \<times> pyval) list" where
  "sample_completions = [(KStr ''1'', PBool True), (KStr ''2'', PBool True)]"

definition sample_data :: "(pykey \<times> pyval) list" where
  "sample_data = [(KStr ''date'', PStr ''2024-01-01''), (KStr ''completions'', PDict sample_completions)]"

text \<open>A mapping that holds habit 3 under both forms of its id.\<close>

definition mixed_completions :: "(pykey \<times> pyval) list" where
  "mixed_completions = [(KStr ''3'', PBool False), (KInt 3, PBool True)]"

definition mixed_data :: "(pykey \<times> pyval) list" where
  "mixed_data = [(KStr ''date'', PStr ''2024-01-01''), (KStr ''completions'', PDict mixed_completions)]"

text \<open>
  A database in which user 8 and user 7 already have rows: user 7 completed habit 1 the
  day before the sample date and habit 3 on it.
\<close>

definition busy :: db where
  "busy = seeded\<lparr>habit_entries :=
            [\<lparr>user_id = 8, habit_id = 1, date = 738886, completed = True\<rparr>,
             \<lparr>user_id = 7, habit_id = 1, date = 738885, completed = True\<rparr>,
             \<lparr>user_id = 7, habit_id = 3, date = 738886, completed = True\<rparr>]\<rparr>"

text \<open>\<open>{"date": "2024-01-01", "completions": {}}\<close>\<close>

definition empty_data :: "(pykey \<times> pyval) list" where
  "empty_data = [(KStr ''date'', PStr ''2024-01-01''), (KStr ''completions'', PDict [])]"

text \<open>\<open>{"date": "01/01/2024", "completions": {}}\<close>: a date that does not parse.\<close>

definition bad_date_data :: "(pykey \<times> pyval) list" where
  "bad_date_data = [(KStr ''date'', PStr ''01/01/2024''), (KStr ''completions'', PDict [])]"

text \<open>The database after the sample request is saved for user 7.\<close>

definition saved_sample :: db where
  "saved_sample = snd (save_habits sample_strptime seeded 7 (PDict sample_data))"

section \<open>Properties of the save loop\<close>

lemma save_loop_fold:
  "save_loop u d cs hs (es, n) =
     (fold (\<lambda>h. upsert u (h_id h) d (desired cs (h_id h))) hs es,
      n + length (filter (\<lambda>h. desired cs (h_id h)) hs))"
  by (induction hs arbitrary: es n) (simp_all add: Let_def)

lemma upsert_keys:
  "map entry_key (upsert u h d c es) =
     (if (u, h, d) \<in> set (map entry_key es) then map entry_key es
      else map entry_key es @ [(u, h, d)])"
  by (induction es) (auto simp: entry_key_def)

lemma upsert_unique:
  "user_habit_date_unique es \<Longrightarrow> user_habit_date_unique (upsert u h d c es)"
  by (simp add: user_habit_date_unique_def upsert_keys)

lemma upsert_first:
  "map_option completed (find (\<lambda>e. entry_key e = (u, h, d)) (upsert u h d c es)) = Some c"
  by (induction es) (auto simp: entry_key_def)

lemma upsert_other:
  "k \<noteq> (u, h, d) \<Longrightarrow>
     find (\<lambda>e. entry_key e = k) (upsert u h d c es) = find (\<lambda>e. entry_key e = k) es"
  by (induction es) (auto simp: entry_key_def)

lemma upsert_fixed:
  "map_option completed (find (\<lambda>e. entry_key e = (u, h, d)) es) = Some c \<Longrightarrow>
     upsert u h d c es = es"
  by (induction es) (auto simp: entry_key_def split: if_splits)

lemma upsert_frame:
  "(\<And>e. P e \<Longrightarrow> user_id e \<noteq> u \<or> date e \<noteq> d) \<Longrightarrow>
     filter P (upsert u h d c es) = filter P es"
  by (induction es) fastforce+

lemma fold_upsert_unique:
  "user_habit_date_unique es \<Longrightarrow>
     user_habit_date_unique (fold (\<lambda>h. upsert u (h_id h) d (desired cs (h_id h))) hs es)"
  by (induction hs arbitrary: es) (simp_all add: upsert_unique)

lemma fold_upsert_frame:
  "(\<And>e. P e \<Longrightarrow> user_id e \<noteq> u \<or> date e \<noteq> d) \<Longrightarrow>
     filter P (fold (\<lambda>h. upsert u (h_id h) d (desired cs (h_id h))) hs es) = filter P es"
  by (induction hs arbitrary: es) (simp_all add: upsert_frame)

lemma fold_upsert_count:
  "count_list (map entry_key (fold (\<lambda>h. upsert u (h_id h) d (desired cs (h_id h))) hs es)) k =
     (if k \<in> set (map entry_key es) then count_list (map entry_key es) k
      else if k \<in> (\<lambda>h. (u, h_id h, d)) ` set hs then 1 else 0)"
proof (induction hs arbitrary: es)
  case Nil
  then show ?case by simp
next
  case (Cons h hs)
  show ?case
    by (simp only: fold_simps Cons.IH upsert_keys) (auto simp: count_list_0_iff)
qed

lemma fold_upsert_keeps:
  "map_option completed (find (\<lambda>e. entry_key e = (u, i, d)) es) = Some (desired cs i) \<Longrightarrow>
     map_option completed
       (find (\<lambda>e. entry_key e = (u, i, d)) (fold (\<lambda>h. upsert u (h_id h) d (desired cs (h_id h))) hs es)) =
     Some (desired cs i)"
proof (induction hs arbitrary: es)
  case Nil
  then show ?case by simp
next
  case (Cons h hs)
  have "map_option completed
          (find (\<lambda>e. entry_key e = (u, i, d)) (upsert u (h_id h) d (desired cs (h_id h)) es)) =
        Some (desired cs i)"
  proof (cases "h_id h = i")
    case True
    then show ?thesis using upsert_first [of u i d "desired cs i" es] by simp
  next
    case False
    then show ?thesis using Cons.prems by (simp add: upsert_other)
  qed
  then show ?case using Cons.IH by simp
qed

lemma fold_upsert_first:
  "h \<in> set hs \<Longrightarrow>
     map_option completed
       (find (\<lambda>e. entry_key e = (u, h_id h, d)) (fold (\<lambda>h. upsert u (h_id h) d (desired cs (h_id h))) hs es)) =
     Some (desired cs (h_id h))"
proof (induction hs arbitrary: es)
  case Nil
  then show ?case by simp
next
  case (Cons a hs)
  show ?case
  proof (cases "h_id a = h_id h")
    case True
    then show ?thesis
      using fold_upsert_keeps [OF upsert_first [of u "h_id h" d "desired cs (h_id h)" es]]
      by simp
  next
    case False
    then have "h \<in> set hs" using Cons.prems by auto
    then show ?thesis using Cons.IH by simp
  qed
qed

lemma fold_upsert_fixed:
  "(\<forall>h \<in> set hs. map_option completed (find (\<lambda>e. entry_key e = (u, h_id h, d)) es) =
                    Some (desired cs (h_id h))) \<Longrightarrow>
     fold (\<lambda>h. upsert u (h_id h) d (desired cs (h_id h))) hs es = es"
  by (induction hs) (simp_all add: upsert_fixed)

lemma fold_upsert_idem:
  "fold (\<lambda>h. upsert u (h_id h) d (desired cs (h_id h))) hs
     (fold (\<lambda>h. upsert u (h_id h) d (desired cs (h_id h))) hs es) =
   fold (\<lambda>h. upsert u (h_id h) d (desired cs (h_id h))) hs es"
  by (rule fold_upsert_fixed) (simp add: fold_upsert_first)

lemma save_completions_eq:
  "save_completions s u d cs =
     ((''Habits saved.'',
       if habits s \<noteq> []
       then of_nat (length (filter (\<lambda>h. desired cs (h_id h)) (habits s))) / of_nat (length (habits s)) * 100
       else 0),
      s\<lparr>habit_entries := fold (\<lambda>h. upsert u (h_id h) d (desired cs (h_id h))) (habits_by_id s) (habit_entries s)\<rparr>)"
proof -
  have "length (filter (\<lambda>h. desired cs (h_id h)) (sort_key h_id (habits s))) =
        length (filter (\<lambda>h. desired cs (h_id h)) (habits s))"
    by (simp add: filter_sort)
  moreover have "sort_key h_id (habits s) \<noteq> [] \<longleftrightarrow> habits s \<noteq> []"
    by (metis length_sort length_0_conv)
  ultimately show ?thesis
    by (simp add: save_completions_def habits_by_id_def save_loop_fold Let_def)
qed

lemma save_habits_valid:
  assumes "dict_get data (KStr ''date'') = PStr ds" and "ds \<noteq> []" and "strptime ds = Some d"
    and "dict_get data (KStr ''completions'') = PDict cs"
  shows "save_habits strptime s u (PDict data) =
           (Inr (fst (save_completions s u d cs)), snd (save_completions s u d cs))"
proof -
  have "(if truthy (PDict data) then PDict data else PDict []) = PDict data"
    by simp
  then show ?thesis
    using assms
    by (simp add: save_habits_def is_dict_def dict_items_def parse_date_def Let_def
        split: prod.splits)
qed

lemma fold_upsert_prefix:
  "\<exists>new. map entry_key (fold (\<lambda>h. upsert u (h_id h) d (desired cs (h_id h))) hs es) =
            map entry_key es @ new"
proof (induction hs arbitrary: es)
  case Nil
  then show ?case by simp
next
  case (Cons h hs)
  obtain new where "map entry_key (fold (\<lambda>h. upsert u (h_id h) d (desired cs (h_id h))) hs
                      (upsert u (h_id h) d (desired cs (h_id h)) es)) =
                    map entry_key (upsert u (h_id h) d (desired cs (h_id h)) es) @ new"
    using Cons.IH by blast
  then show ?case by (auto simp: upsert_keys)
qed

lemma count_list_distinct: "distinct xs \<Longrightarrow> x \<in> set xs \<Longrightarrow> count_list xs x = 1"
  by (induction xs) auto

lemma upsert_present:
  "distinct (map entry_key es) \<Longrightarrow> (u, h, d) \<in> set (map entry_key es) \<Longrightarrow>
     upsert u h d c es = map (\<lambda>e. if entry_key e = (u, h, d) then e\<lparr>completed := c\<rparr> else e) es"
proof (induction es)
  case Nil
  then show ?case by simp
next
  case (Cons e es)
  show ?case
  proof (cases "entry_key e = (u, h, d)")
    case True
    then have "\<forall>x \<in> set es. entry_key x \<noteq> (u, h, d)"
      using Cons.prems(1) by (force simp: image_iff)
    then have "map (\<lambda>e. if entry_key e = (u, h, d) then e\<lparr>completed := c\<rparr> else e) es = es"
      by (intro map_idI) simp
    then show ?thesis using True by (simp add: entry_key_def)
  next
    case False
    then show ?thesis using Cons by (auto simp: entry_key_def)
  qed
qed

lemma upsert_absent:
  "(u, h, d) \<notin> set (map entry_key es) \<Longrightarrow>
     upsert u h d c es = es @ [\<lparr>user_id = u, habit_id = h, date = d, completed = c\<rparr>]"
  by (induction es) (auto simp: entry_key_def)

lemma upsert_take:
  assumes "distinct (map entry_key es)"
  shows "take (length es) (upsert u h d c es) =
           map (\<lambda>e. if entry_key e = (u, h, d) then e\<lparr>completed := c\<rparr> else e) es"
proof (cases "(u, h, d) \<in> set (map entry_key es)")
  case True
  then show ?thesis by (simp add: upsert_present [OF assms])
next
  case False
  then have "\<forall>x \<in> set es. entry_key x \<noteq> (u, h, d)"
    by (force simp: image_iff)
  then have "map (\<lambda>e. if entry_key e = (u, h, d) then e\<lparr>completed := c\<rparr> else e) es = es"
    by (intro map_idI) simp
  then show ?thesis using False by (simp add: upsert_absent)
qed

lemma length_upsert: "length es \<le> length (upsert u h d c es)"
  by (induction es) auto

lemma fold_upsert_take:
  "distinct (map entry_key es) \<Longrightarrow>
     take (length es) (fold (\<lambda>h. upsert u (h_id h) d (desired cs (h_id h))) hs es) =
       map (\<lambda>e. if user_id e = u \<and> date e = d \<and> habit_id e \<in> h_id ` set hs
                 then e\<lparr>completed := desired cs (habit_id e)\<rparr> else e) es"
proof (induction hs arbitrary: es)
  case Nil
  have "map (\<lambda>e. if user_id e = u \<and> date e = d \<and> habit_id e \<in> h_id ` set []
                 then e\<lparr>completed := desired cs (habit_id e)\<rparr> else e) es = es"
    by (intro map_idI) simp
  then show ?case by simp
next
  case (Cons h hs)
  let ?es1 = "upsert u (h_id h) d (desired cs (h_id h)) es"
  let ?upd = "\<lambda>hs e. if user_id e = u \<and> date e = d \<and> habit_id e \<in> h_id ` set hs
                 then e\<lparr>completed := desired cs (habit_id e)\<rparr> else e"
  have d1: "distinct (map entry_key ?es1)"
    using Cons.prems upsert_unique [of es u "h_id h" d "desired cs (h_id h)"]
    by (simp add: user_habit_date_unique_def)
  have le: "length es \<le> length ?es1"
    by (rule length_upsert)
  have "take (length es) (fold (\<lambda>h. upsert u (h_id h) d (desired cs (h_id h))) (h # hs) es) =
        take (length es) (take (length ?es1) (fold (\<lambda>h. upsert u (h_id h) d (desired cs (h_id h))) hs ?es1))"
    using le by (simp add: min_def)
  also have "\<dots> = take (length es) (map (?upd hs) ?es1)"
    by (simp only: Cons.IH [OF d1])
  also have "\<dots> = map (?upd hs) (take (length es) ?es1)"
    by (simp add: take_map)
  also have "\<dots> = map (?upd hs)
                      (map (\<lambda>e. if entry_key e = (u, h_id h, d)
                                then e\<lparr>completed := desired cs (h_id h)\<rparr> else e) es)"
    by (simp only: upsert_take [OF Cons.prems])
  also have "\<dots> = map (?upd (h # hs)) es"
    by (auto simp: entry_key_def)
  finally show ?case .
qed

section \<open>Looking entries up\<close>

lemma unique_find:
  "user_habit_date_unique es \<Longrightarrow> e \<in> set es \<Longrightarrow> find (\<lambda>x. entry_key x = entry_key e) es = Some e"
  by (induction es) (auto simp: user_habit_date_unique_def)

lemma find_in_set:
  "find P es = Some e \<Longrightarrow> e \<in> set es \<and> P e"
  by (induction es) (auto split: if_splits)

lemma map_of_dict_of: "map_of (dict_of kvs) = map_of (rev kvs)"
proof -
  have "map_of (fold (\<lambda>(k, v) d. AList.update k v d) kvs acc) = map_of (rev kvs @ acc)" for acc
    by (induction kvs arbitrary: acc) (auto simp: update_conv' fun_eq_iff map_add_def split: option.splits)
  then show ?thesis by (simp add: dict_of_def)
qed

lemma map_of_rev_distinct: "distinct (map fst xs) \<Longrightarrow> map_of (rev xs) = map_of xs"
proof (induction xs)
  case Nil
  then show ?case by simp
next
  case (Cons x xs)
  obtain k v where x: "x = (k, v)" by (cases x)
  have "dom (map_of [x]) \<inter> dom (map_of xs) = {}"
    using Cons.prems by (auto simp: x dom_map_of_conv_image_fst)
  then have "map_of [x] ++ map_of xs = map_of xs ++ map_of [x]"
    by (rule map_add_comm)
  then show ?case
    using Cons by (simp add: x)
qed

lemma distinct_habit_ids:
  "user_habit_date_unique es \<Longrightarrow>
     distinct (map habit_id (filter (\<lambda>e. user_id e = u \<and> date e = d) es))"
  unfolding user_habit_date_unique_def
  by (induction es) (auto simp: entry_key_def image_iff)

lemma map_of_entries:
  "map_of (map (\<lambda>e. (habit_id e, f e)) (filter (\<lambda>e. user_id e = u \<and> date e = d) es)) h =
     map_option f (find (\<lambda>e. entry_key e = (u, h, d)) es)"
  by (induction es) (auto simp: entry_key_def)

lemma dict_of_entries:
  assumes "user_habit_date_unique es"
  shows "map_of (dict_of (map (\<lambda>e. (habit_id e, f e)) (filter (\<lambda>e. user_id e = u \<and> date e = d) es))) h =
           map_option f (find (\<lambda>e. entry_key e = (u, h, d)) es)"
proof -
  let ?kvs = "map (\<lambda>e. (habit_id e, f e)) (filter (\<lambda>e. user_id e = u \<and> date e = d) es)"
  have "distinct (map fst ?kvs)"
    using distinct_habit_ids [OF assms, of u d] by (simp add: comp_def)
  then have "map_of (rev ?kvs) = map_of ?kvs"
    by (rule map_of_rev_distinct)
  then show ?thesis by (simp add: map_of_dict_of map_of_entries)
qed

lemma find_completed_iff:
  assumes "user_habit_date_unique es"
  shows "map_option completed (find (\<lambda>e. entry_key e = k) es) = Some True \<longleftrightarrow>
           (\<exists>e \<in> set es. entry_key e = k \<and> completed e)"
proof
  assume "map_option completed (find (\<lambda>e. entry_key e = k) es) = Some True"
  then obtain e where "find (\<lambda>e. entry_key e = k) es = Some e" and "completed e" by auto
  then show "\<exists>e \<in> set es. entry_key e = k \<and> completed e"
    using find_in_set [of "\<lambda>e. entry_key e = k" es e] by auto
next
  assume "\<exists>e \<in> set es. entry_key e = k \<and> completed e"
  then obtain e where "e \<in> set es" "entry_key e = k" "completed e" by auto
  then show "map_option completed (find (\<lambda>e. entry_key e = k) es) = Some True"
    using unique_find [OF assms, of e] by auto
qed

section \<open>The outcomes of \<open>save_habits\<close>\<close>

lemma save_habits_dict:
  "save_habits strptime s u (PDict data) =
     (let date_str = dict_get data (KStr ''date'');
          completions = dict_get data (KStr ''completions'')
      in if \<not> truthy date_str \<or> \<not> is_dict completions
         then (Inl (BadRequest ''Invalid payload. 'date' and 'completions' are required.''), s)
         else (case date_str of
                 PStr ds \<Rightarrow>
                   (case parse_date strptime ds of
                      Inl msg \<Rightarrow> (Inl (BadRequest msg), s)
                    | Inr target_date \<Rightarrow>
                        (case save_completions s u target_date (dict_items completions) of
                           (resp, s') \<Rightarrow> (Inr resp, s')))
               | _ \<Rightarrow> (Inl TypeError, s)))"
proof -
  have "(if truthy (PDict data) then PDict data else PDict []) = PDict data"
    by simp
  then show ?thesis
    unfolding save_habits_def by simp
qed

lemma save_habits_falsy:
  "\<not> truthy body \<Longrightarrow> save_habits strptime s u body = save_habits strptime s u (PDict [])"
  by (simp add: save_habits_def)

lemma save_habits_not_dict:
  "truthy body \<Longrightarrow> \<not> is_dict body \<Longrightarrow> save_habits strptime s u body = (Inl AttributeError, s)"
  by (cases body) (simp_all add: save_habits_def is_dict_def)

lemma save_habits_dict_cases:
  "(\<exists>e. \<forall>s. save_habits strptime s u (PDict data) = (Inl e, s)) \<or>
   (\<exists>d cs. \<forall>s. save_habits strptime s u (PDict data) =
               (Inr (fst (save_completions s u d cs)), snd (save_completions s u d cs)))"
proof (cases "\<not> truthy (dict_get data (KStr ''date'')) \<or> \<not> is_dict (dict_get data (KStr ''completions''))")
  case True
  then show ?thesis by (auto simp: save_habits_dict Let_def)
next
  case False
  then obtain cs where cs: "dict_get data (KStr ''completions'') = PDict cs"
    by (cases "dict_get data (KStr ''completions'')") (simp_all add: is_dict_def)
  show ?thesis
  proof (cases "\<exists>ds. dict_get data (KStr ''date'') = PStr ds")
    case True
    then obtain ds where ds: "dict_get data (KStr ''date'') = PStr ds" by blast
    then have "ds \<noteq> []" using False by auto
    show ?thesis
    proof (cases "strptime ds")
      case None
      then have "\<forall>s. save_habits strptime s u (PDict data) =
                   (Inl (BadRequest ''Date must be in YYYY-MM-DD format''), s)"
        using False ds by (simp add: save_habits_dict parse_date_def)
      then show ?thesis by blast
    next
      case (Some d)
      then have "\<forall>s. save_habits strptime s u (PDict data) =
                   (Inr (fst (save_completions s u d cs)), snd (save_completions s u d cs))"
        using save_habits_valid [where strptime = strptime and ds = ds, OF ds \<open>ds \<noteq> []\<close> Some cs] by simp
      then show ?thesis by blast
    qed
  next
    case no_str: False
    have "\<forall>s. save_habits strptime s u (PDict data) = (Inl TypeError, s)"
      using False no_str
      by (cases "dict_get data (KStr ''date'')") (simp_all add: save_habits_dict)
    then show ?thesis by blast
  qed
qed

lemma save_habits_cases:
  "(\<exists>e. \<forall>s. save_habits strptime s u body = (Inl e, s)) \<or>
   (\<exists>d cs. \<forall>s. save_habits strptime s u body =
               (Inr (fst (save_completions s u d cs)), snd (save_completions s u d cs)))"
proof (cases "truthy body")
  case False
  have eq: "save_habits strptime s u body = save_habits strptime s u (PDict [])" for s
    by (rule save_habits_falsy [OF False])
  show ?thesis
    using save_habits_dict_cases [of strptime u "[]"] by (simp only: eq)
next
  case True
  show ?thesis
  proof (cases "is_dict body")
    case False
    then show ?thesis using True by (auto simp: save_habits_not_dict)
  next
    case dict: True
    then obtain data where "body = PDict data"
      by (cases body) (simp_all add: is_dict_def)
    then show ?thesis using save_habits_dict_cases [of strptime u data] by simp
  qed
qed

lemma desired_eq:
  "desired cs i = (truthy (dict_get cs (KStr (str i))) \<or> truthy (dict_get cs (KInt i)))"
  by (simp add: desired_def py_or_def)

lemma set_habits_by_id: "set (habits_by_id s) = set (habits s)"
  by (simp add: habits_by_id_def)

lemma save_habits_entries:
  assumes "dict_get data (KStr ''date'') = PStr ds" and "ds \<noteq> []" and "strptime ds = Some d"
    and "dict_get data (KStr ''completions'') = PDict cs"
  shows "habit_entries (snd (save_habits strptime s u (PDict data))) =
           fold (\<lambda>h. upsert u (h_id h) d (desired cs (h_id h))) (habits_by_id s) (habit_entries s)"
    and "habits (snd (save_habits strptime s u (PDict data))) = habits s"
    and "fst (save_habits strptime s u (PDict data)) =
           Inr (''Habits saved.'',
                if habits s \<noteq> []
                then of_nat (length (filter (\<lambda>h. desired cs (h_id h)) (habits s))) / of_nat (length (habits s)) * 100
                else 0)"
  using save_habits_valid [where strptime = strptime and ds = ds, OF assms]
  by (simp_all add: save_completions_eq)

section \<open>Reading a day\<close>

lemma count_list_insort_key:
  "count_list (insort_key f x xs) y = count_list (x # xs) y"
  by (induction xs) auto

lemma count_list_sort_key:
  "count_list (sort_key f xs) y = count_list xs y"
  by (induction xs) (simp_all add: count_list_insort_key)

lemma date_arg_Some:
  "ds \<noteq> [] \<Longrightarrow> strptime ds = Some d \<Longrightarrow> date_arg strptime today (Some ds) = Inr d"
  by (simp add: date_arg_def parse_date_def)

lemma get_habits_find:
  assumes "user_habit_date_unique (habit_entries s)"
    and "date_arg strptime today date_str = Inr d"
  shows "get_habits strptime today s u date_str =
           Inr (d, map (\<lambda>h. \<lparr>r_id = h_id h, r_name = h_name h,
                              r_completed =
                                (map_option completed
                                   (find (\<lambda>e. entry_key e = (u, h_id h, d)) (habit_entries s)) = Some True)\<rparr>)
                     (habits_by_id s))"
proof -
  have "(case map_option (\<lambda>e. e) (find (\<lambda>e. entry_key e = (u, i, d)) (habit_entries s)) of
           Some entry \<Rightarrow> completed entry | None \<Rightarrow> False) =
        (map_option completed (find (\<lambda>e. entry_key e = (u, i, d)) (habit_entries s)) = Some True)" for i
    by (cases "find (\<lambda>e. entry_key e = (u, i, d)) (habit_entries s)") simp_all
  then show ?thesis
    using assms(2) dict_of_entries [OF assms(1), where f = "\<lambda>e. e" and u = u and d = d]
    by (simp add: get_habits_def entries_on_def Let_def)
qed

section \<open>Validation\<close>

lemma progress_bad_period:
  assumes "date_arg strptime today end_date_str = Inr end_date"
    and "lower (case period_arg of None \<Rightarrow> ''weekly'' | Some p \<Rightarrow> p) \<noteq> ''weekly''"
    and "lower (case period_arg of None \<Rightarrow> ''weekly'' | Some p \<Rightarrow> p) \<noteq> ''monthly''"
  shows "progress strptime today s u period_arg end_date_str =
           Inl (BadRequest ''Period must be 'weekly' or 'monthly'.'')"
  using assms by (simp add: progress_def Let_def)

lemma progress_bad_date:
  assumes "date_arg strptime today end_date_str = Inl msg"
  shows "progress strptime today s u period_arg end_date_str = Inl (BadRequest msg)"
  using assms by (simp add: progress_def Let_def)

lemma date_arg_cases:
  "date_arg strptime today date_str = Inl msg \<longleftrightarrow>
     (\<exists>ds. date_str = Some ds \<and> ds \<noteq> [] \<and> strptime ds = None) \<and>
     msg = ''Date must be in YYYY-MM-DD format''"
  by (auto simp: date_arg_def parse_date_def split: option.splits)

lemma save_habits_invalid_payload:
  assumes "\<not> truthy (dict_get data (KStr ''date'')) \<or> \<not> is_dict (dict_get data (KStr ''completions''))"
  shows "save_habits strptime s u (PDict data) =
           (Inl (BadRequest ''Invalid payload. 'date' and 'completions' are required.''), s)"
  unfolding save_habits_dict Let_def using assms by (rule if_P)

lemma save_habits_bad_date:
  assumes "dict_get data (KStr ''date'') = PStr ds" and "ds \<noteq> []" and "strptime ds = None"
    and "is_dict (dict_get data (KStr ''completions''))"
  shows "save_habits strptime s u (PDict data) =
           (Inl (BadRequest ''Date must be in YYYY-MM-DD format''), s)"
  using assms by (simp add: save_habits_dict Let_def parse_date_def)

section \<open>The loops of \<open>progress\<close>\<close>

lemma map_other_keys:
  "k \<notin> fst ` set al \<Longrightarrow> map (\<lambda>(k', v). if k' = k then (k', f v) else (k', v)) al = al"
  by (intro map_idI) force

lemma map_entry_map:
  "distinct (map fst al) \<Longrightarrow>
     AList.map_entry k f al = map (\<lambda>(k', v). if k' = k then (k', f v) else (k', v)) al"
  by (induction al) (auto simp: map_other_keys)

lemma count_day_Cons:
  "count_day em (h # hs) al = count_day em hs (AList.map_entry (h_id h) (tally em (h_id h)) al)"
  by (simp add: tally_def [abs_def])

lemma count_day_map:
  "distinct (map h_id hs) \<Longrightarrow> distinct (map fst al) \<Longrightarrow>
     count_day em hs al = map (\<lambda>(k, st). (k, if k \<in> h_id ` set hs then tally em k st else st)) al"
proof (induction hs arbitrary: al)
  case Nil
  have "map (\<lambda>(k, st). (k, if k \<in> h_id ` set [] then tally em k st else st)) al = al"
    by (intro map_idI) auto
  then show ?case by simp
next
  case (Cons h hs)
  let ?al' = "AList.map_entry (h_id h) (tally em (h_id h)) al"
  have d': "distinct (map fst ?al')"
    using Cons.prems(2) by (rule distinct_map_entry)
  have "count_day em (h # hs) al = count_day em hs ?al'"
    by (rule count_day_Cons)
  also have "\<dots> = map (\<lambda>(k, st). (k, if k \<in> h_id ` set hs then tally em k st else st)) ?al'"
    using Cons.prems(1) d' by (intro Cons.IH) simp_all
  also have "\<dots> = map (\<lambda>(k, st). (k, if k \<in> h_id ` set (h # hs) then tally em k st else st)) al"
    using Cons.prems(1) by (auto simp: map_entry_map [OF Cons.prems(2)] case_prod_beta)
  finally show ?case .
qed

lemma fold_count_day:
  assumes "distinct (map h_id hs)"
  shows "distinct (map fst al) \<Longrightarrow>
     fold (\<lambda>d. count_day (em d) hs) days al =
       map (\<lambda>(k, st). (k, if k \<in> h_id ` set hs
                           then st\<lparr>total_days := total_days st + length days,
                                   completed_days := completed_days st +
                                     length (filter (\<lambda>d. map_of (em d) k = Some True) days)\<rparr>
                           else st)) al"
proof (induction days arbitrary: al)
  case Nil
  have "map (\<lambda>(k, st). (k, if k \<in> h_id ` set hs
                           then st\<lparr>total_days := total_days st + length ([] :: 'a list),
                                   completed_days := completed_days st +
                                     length (filter (\<lambda>d. map_of (em d) k = Some True) [])\<rparr>
                           else st)) al = al"
    by (intro map_idI) auto
  then show ?case by simp
next
  case (Cons d days)
  let ?al' = "map (\<lambda>(k, st). (k, if k \<in> h_id ` set hs then tally (em d) k st else st)) al"
  have keys: "map fst ?al' = map fst al"
    by (simp add: case_prod_beta comp_def)
  have "fold (\<lambda>d. count_day (em d) hs) (d # days) al = fold (\<lambda>d. count_day (em d) hs) days ?al'"
    by (simp add: count_day_map [OF assms Cons.prems])
  also have "\<dots> = map (\<lambda>(k, st). (k, if k \<in> h_id ` set hs
                           then st\<lparr>total_days := total_days st + length days,
                                   completed_days := completed_days st +
                                     length (filter (\<lambda>d. map_of (em d) k = Some True) days)\<rparr>
                           else st)) ?al'"
    by (rule Cons.IH) (simp only: keys Cons.prems)
  also have "\<dots> = map (\<lambda>(k, st). (k, if k \<in> h_id ` set hs
                           then st\<lparr>total_days := total_days st + length (d # days),
                                   completed_days := completed_days st +
                                     length (filter (\<lambda>d. map_of (em d) k = Some True) (d # days))\<rparr>
                           else st)) al"
    by (simp add: case_prod_beta tally_def)
  finally show ?case .
qed

lemma update_fresh: "k \<notin> fst ` set al \<Longrightarrow> AList.update k v al = al @ [(k, v)]"
  by (induction al) auto

lemma dict_of_distinct:
  assumes "distinct (map fst kvs)"
  shows "dict_of kvs = kvs"
proof -
  have "distinct (map fst (acc @ kvs)) \<Longrightarrow>
          fold (\<lambda>(k, v) d. AList.update k v d) kvs acc = acc @ kvs" for acc
  proof (induction kvs arbitrary: acc)
    case Nil
    then show ?case by simp
  next
    case (Cons kv kvs)
    obtain k v where kv: "kv = (k, v)" by (cases kv)
    have "AList.update k v acc = acc @ [(k, v)]"
      using Cons.prems by (intro update_fresh) (auto simp: kv)
    then show ?case
      using Cons.IH [of "acc @ [(k, v)]"] Cons.prems by (simp add: kv)
  qed
  from this [of "[]"] assms show ?thesis by (simp add: dict_of_def)
qed

lemma count_days_fold:
  "MINORDINAL \<le> current_date \<Longrightarrow> end_date < MAXORDINAL \<Longrightarrow>
     count_days s u hs current_date end_date al =
       Inr (fold (\<lambda>d. count_day (day_map s u d) hs) [current_date .. end_date] al)"
proof (induction "nat (end_date + 1 - current_date)" arbitrary: current_date al)
  case 0
  then have "\<not> current_date \<le> end_date" by simp
  then show ?case by (simp add: count_days.simps [of s u hs current_date])
next
  case (Suc n)
  then have le: "current_date \<le> end_date" by simp
  then have next_date: "date_add_days current_date 1 = Inr (current_date + 1)"
    using Suc.prems by (simp add: date_add_days_def)
  have "count_days s u hs (current_date + 1) end_date (count_day (day_map s u current_date) hs al) =
          Inr (fold (\<lambda>d. count_day (day_map s u d) hs) [current_date + 1 .. end_date]
                 (count_day (day_map s u current_date) hs al))"
    using Suc.hyps(2) Suc.prems by (intro Suc.hyps(1)) simp_all
  moreover have "[current_date .. end_date] = current_date # [current_date + 1 .. end_date]"
    using le by (simp add: upto_rec1)
  ultimately show ?case
    using le next_date
    by (simp add: count_days.simps [of s u hs current_date] day_map_def Let_def)
qed

lemma with_percentage_eq:
  "with_percentage \<lparr>s_id = i, s_name = n, completed_days = c, total_days = t\<rparr> =
     \<lparr>s_id = i, s_name = n, completed_days = c, total_days = t,
      percentage = (if t > 0 then round2 (of_nat c / of_nat t * 100) else 0)\<rparr>"
  by (simp add: with_percentage_def stats.defs habit_progress.defs)

lemma habits_by_id_distinct:
  "habit_primary_key (habits s) \<Longrightarrow> distinct (map h_id (habits_by_id s))"
  by (simp add: habit_primary_key_def habits_by_id_def distinct_map)

lemma length_upto: "length [i .. j] = nat (j - i + 1)"
  by simp

lemma progress_window:
  assumes pk: "habit_primary_key (habits s)"
    and end_date: "date_arg strptime today end_date_str = Inr end_date"
    and period: "lower (case period_arg of None \<Rightarrow> ''weekly'' | Some p \<Rightarrow> p) = ''weekly'' \<and> n = 7 \<or>
                 lower (case period_arg of None \<Rightarrow> ''weekly'' | Some p \<Rightarrow> p) = ''monthly'' \<and> n = 30"
    and lo: "MINORDINAL \<le> end_date - (int n - 1)"
    and hi: "end_date < MAXORDINAL"
  shows "progress strptime today s u period_arg end_date_str =
           Inr \<lparr>resp_start_date = end_date - (int n - 1), resp_end_date = end_date,
                resp_period = lower (case period_arg of None \<Rightarrow> ''weekly'' | Some p \<Rightarrow> p),
                resp_habits =
                  map (\<lambda>h. \<lparr>s_id = h_id h, s_name = h_name h,
                             completed_days =
                               length (filter (\<lambda>d. map_of (day_map s u d) (h_id h) = Some True)
                                         [end_date - (int n - 1) .. end_date]),
                             total_days = n,
                             percentage =
                               round2 (of_nat (length (filter (\<lambda>d. map_of (day_map s u d) (h_id h) = Some True)
                                                          [end_date - (int n - 1) .. end_date]))
                                       / of_nat n * 100)\<rparr>)
                      (habits_by_id s)\<rparr>"
proof -
  let ?period = "lower (case period_arg of None \<Rightarrow> ''weekly'' | Some p \<Rightarrow> p)"
  let ?start = "end_date - (int n - 1)"
  let ?hs = "habits_by_id s"
  let ?init = "map (\<lambda>habit. (h_id habit,
                               \<lparr>s_id = h_id habit, s_name = h_name habit,
                                completed_days = 0, total_days = 0\<rparr>)) ?hs"
  have n: "n = 7 \<or> n = 30" and npos: "0 < n"
    using period by auto
  have start: "(if ?period = ''weekly'' then date_add_days end_date (- 6)
                else if ?period = ''monthly'' then date_add_days end_date (- 29)
                else Inl (BadRequest ''Period must be 'weekly' or 'monthly'.'')) = Inr ?start"
    using period lo hi by (auto simp: date_add_days_def)
  have dist: "distinct (map h_id ?hs)"
    using pk by (rule habits_by_id_distinct)
  have keys: "map fst ?init = map h_id ?hs"
    by (simp add: comp_def)
  have init: "dict_of ?init = ?init"
    by (rule dict_of_distinct) (simp only: keys dist)
  have len: "length [?start .. end_date] = n"
    by (simp add: length_upto)
  have "count_days s u ?hs ?start end_date ?init =
          Inr (fold (\<lambda>d. count_day (day_map s u d) ?hs) [?start .. end_date] ?init)"
    using lo hi by (rule count_days_fold)
  also have "fold (\<lambda>d. count_day (day_map s u d) ?hs) [?start .. end_date] ?init =
        map (\<lambda>(k, st). (k, if k \<in> h_id ` set ?hs
                           then st\<lparr>total_days := total_days st + length [?start .. end_date],
                                   completed_days := completed_days st +
                                     length (filter (\<lambda>d. map_of (day_map s u d) k = Some True)
                                               [?start .. end_date])\<rparr>
                           else st)) ?init"
    by (rule fold_count_day [OF dist]) (simp only: keys dist)
  also have "\<dots> = map (\<lambda>h. (h_id h,
                             \<lparr>s_id = h_id h, s_name = h_name h,
                              completed_days = length (filter (\<lambda>d. map_of (day_map s u d) (h_id h) = Some True)
                                                         [?start .. end_date]),
                              total_days = n\<rparr>)) ?hs"
    unfolding len by (simp add: comp_def)
  finally have counted: "count_days s u ?hs ?start end_date ?init =
          Inr (map (\<lambda>h. (h_id h,
                             \<lparr>s_id = h_id h, s_name = h_name h,
                              completed_days = length (filter (\<lambda>d. map_of (day_map s u d) (h_id h) = Some True)
                                                         [?start .. end_date]),
                              total_days = n\<rparr>)) ?hs)" .
  show ?thesis
    unfolding progress_def Let_def end_date sum.case start init counted
    using npos by (simp add: comp_def with_percentage_eq)
qed

lemma day_map_completed:
  assumes "user_habit_date_unique (habit_entries s)"
  shows "(map_of (day_map s u d) k = Some True) =
           (\<exists>e \<in> set (habit_entries s). user_id e = u \<and> habit_id e = k \<and> date e = d \<and> completed e)"
  using find_completed_iff [OF assms, of "(u, k, d)"]
  by (simp add: day_map_def entries_on_def dict_of_entries [OF assms] entry_key_def)

section \<open>Facts about the sample run\<close>

lemma seeded_habits:
  "habits seeded =
     [\<lparr>h_id = 1, h_name = ''Wake early''\<rparr>, \<lparr>h_id = 2, h_name = ''Hydrate''\<rparr>,
      \<lparr>h_id = 3, h_name = ''Read''\<rparr>, \<lparr>h_id = 4, h_name = ''Exercise''\<rparr>,
      \<lparr>h_id = 5, h_name = ''Pray''\<rparr>, \<lparr>h_id = 6, h_name = ''Plan day''\<rparr>,
      \<lparr>h_id = 7, h_name = ''Sleep Well''\<rparr>, \<lparr>h_id = 8, h_name = ''Learn''\<rparr>,
      \<lparr>h_id = 9, h_name = ''Eat Healthy''\<rparr>, \<lparr>h_id = 10, h_name = ''Limit screentime''\<rparr>,
      \<lparr>h_id = 11, h_name = ''Journal''\<rparr>, \<lparr>h_id = 12, h_name = ''Gratitude''\<rparr>,
      \<lparr>h_id = 13, h_name = ''Clean room''\<rparr>, \<lparr>h_id = 14, h_name = ''Family time''\<rparr>,
      \<lparr>h_id = 15, h_name = ''Walk''\<rparr>]"
  by code_simp

lemma seeded_entries: "habit_entries seeded = []"
  by (simp add: seeded_def seed_habits_def)

lemma sample_data_valid:
  "dict_get sample_data (KStr ''date'') = PStr ''2024-01-01''"
  "sample_strptime ''2024-01-01'' = Some 738886"
  "dict_get sample_data (KStr ''completions'') = PDict sample_completions"
  by (simp_all add: sample_data_def dict_get_def sample_strptime_def)

lemma sample_save_response:
  "fst (save_habits sample_strptime seeded 7 (PDict sample_data)) = Inr (''Habits saved.'', 40 / 3)"
  by code_simp

lemma empty_data_valid:
  "dict_get empty_data (KStr ''date'') = PStr ''2024-01-01''"
  "dict_get empty_data (KStr ''completions'') = PDict []"
  by (simp_all add: empty_data_def dict_get_def)

lemma busy_unique: "user_habit_date_unique (habit_entries busy)"
  by (simp add: busy_def user_habit_date_unique_def entry_key_def)

lemma mixed_data_valid:
  "dict_get mixed_data (KStr ''date'') = PStr ''2024-01-01''"
  "dict_get mixed_data (KStr ''completions'') = PDict mixed_completions"
  by (simp_all add: mixed_data_def dict_get_def)

lemma busy_habits: "habits busy = habits seeded"
  by (simp add: busy_def)

lemma bad_date_data_shape:
  "dict_get bad_date_data (KStr ''date'') = PStr ''01/01/2024''"
  "is_dict (dict_get bad_date_data (KStr ''completions''))"
  "sample_strptime ''01/01/2024'' = None"
  by (simp_all add: bad_date_data_def dict_get_def is_dict_def sample_strptime_def)

lemma sample_end_date: "date_arg sample_strptime 0 (Some ''2024-01-07'') = Inr 738892"
  by (simp add: date_arg_def parse_date_def sample_strptime_def)

lemma lower_yearly: "lower ''yearly'' = ''yearly''"
  by code_simp

lemma seeded_primary_key: "habit_primary_key (habits seeded)"
  by (simp add: seeded_habits habit_primary_key_def)

lemma lower_weekly: "lower ''weekly'' = ''weekly''"
  by code_simp

lemma sample_week_range: "MINORDINAL \<le> 738892 - (int 7 - 1)" "738892 < MAXORDINAL"
  by (simp_all add: MINORDINAL_def MAXORDINAL_def)

lemma saved_sample_tables:
  "habits saved_sample = habits seeded"
  "user_habit_date_unique (habit_entries saved_sample)"
proof -
  note ent = save_habits_entries [where strptime = sample_strptime and ds = "''2024-01-01''"
      and s = seeded and u = 7, OF sample_data_valid(1) _ sample_data_valid(2) sample_data_valid(3)]
  show "habits saved_sample = habits seeded"
    by (simp add: saved_sample_def ent(2))
  have "user_habit_date_unique (habit_entries seeded)"
    by (simp add: seeded_entries user_habit_date_unique_def)
  then show "user_habit_date_unique (habit_entries saved_sample)"
    by (simp add: saved_sample_def ent(1) fold_upsert_unique)
qed

lemma saved_sample_entries:
  "habit_entries saved_sample =
     map (\<lambda>i. \<lparr>user_id = 7, habit_id = i, date = 738886, completed = (i = 1 \<or> i = 2)\<rparr>) [1 .. 15]"
  unfolding saved_sample_def by code_simp

lemma round2_samples: "round2 (100 / 7) = 1429 / 100" "round2 0 = 0"
  by code_simp+

section \<open>Verified properties\<close>

text \<open>
  C1. A save keeps the ledger free of duplicates: when no two rows share a
  (user_id, habit_id, date) triple before \<open>save_habits\<close>, none do after it, whatever the
  request. After a well-formed request for user \<open>u\<close> and date \<open>d\<close> every catalog
  habit has exactly one row for \<open>(u, habit, d)\<close>, and that row carries the desired
  flag. The rows that were there stay where they were: a row of \<open>u\<close> and \<open>d\<close> for
  a catalog habit has its \<open>completed\<close> flag set to the desired state and nothing else
  changed, every other row is untouched. A triple that already had a row has as many
  rows as before; a triple that had none gets one row when it is \<open>(u, habit, d)\<close> for a
  catalog habit, and none otherwise.
\<close>

theorem save_habits_keeps_unique:
  assumes "user_habit_date_unique (habit_entries s)"
    and "dict_get data (KStr ''date'') = PStr ds" and "ds \<noteq> []" and "strptime ds = Some d"
    and "dict_get data (KStr ''completions'') = PDict cs"
  shows "user_habit_date_unique (habit_entries (snd (save_habits strptime s u body))) \<and>
         (\<forall>h \<in> set (habits s).
            count_list (map entry_key (habit_entries (snd (save_habits strptime s u (PDict data)))))
              (u, h_id h, d) = 1) \<and>
         (\<forall>h \<in> set (habits s).
            \<forall>e \<in> set (habit_entries (snd (save_habits strptime s u (PDict data)))).
              entry_key e = (u, h_id h, d) \<longrightarrow> completed e = desired cs (h_id h)) \<and>
         take (length (habit_entries s)) (habit_entries (snd (save_habits strptime s u (PDict data)))) =
           map (\<lambda>e. if user_id e = u \<and> date e = d \<and> habit_id e \<in> h_id ` set (habits s)
                     then e\<lparr>completed := desired cs (habit_id e)\<rparr> else e)
               (habit_entries s) \<and>
         (\<forall>k. count_list (map entry_key (habit_entries (snd (save_habits strptime s u (PDict data))))) k =
                (if k \<in> set (map entry_key (habit_entries s))
                 then count_list (map entry_key (habit_entries s)) k
                 else if k \<in> (\<lambda>h. (u, h_id h, d)) ` set (habits s) then 1 else 0))"
proof -
  let ?es = "habit_entries s"
  let ?es' = "habit_entries (snd (save_habits strptime s u (PDict data)))"
  note ent = save_habits_entries [where strptime = strptime and ds = ds and s = s and u = u, OF assms(2-5)]
  have any: "user_habit_date_unique (habit_entries (snd (save_habits strptime s u body)))"
  proof -
    consider (fail) e where "save_habits strptime s u body = (Inl e, s)"
      | (ok) d' cs' where "save_habits strptime s u body =
                           (Inr (fst (save_completions s u d' cs')), snd (save_completions s u d' cs'))"
      using save_habits_cases [of strptime u body] by blast
    then show ?thesis
    proof cases
      case fail
      then show ?thesis using assms(1) by simp
    next
      case ok
      then show ?thesis
        using assms(1) by (simp add: save_completions_eq fold_upsert_unique)
    qed
  qed
  have uniq: "user_habit_date_unique ?es'"
    unfolding ent(1) using assms(1) by (rule fold_upsert_unique)
  have count: "count_list (map entry_key ?es') k =
                (if k \<in> set (map entry_key ?es) then count_list (map entry_key ?es) k
                 else if k \<in> (\<lambda>h. (u, h_id h, d)) ` set (habits s) then 1 else 0)" for k
    unfolding ent(1) fold_upsert_count by (simp add: set_habits_by_id)
  have one: "count_list (map entry_key ?es') (u, h_id h, d) = 1" if h: "h \<in> set (habits s)" for h
  proof (cases "(u, h_id h, d) \<in> set (map entry_key ?es)")
    case True
    then have "count_list (map entry_key ?es) (u, h_id h, d) = 1"
      using assms(1) by (intro count_list_distinct) (simp_all add: user_habit_date_unique_def)
    then show ?thesis using True by (simp only: count if_True)
  next
    case False
    have "(u, h_id h, d) \<in> (\<lambda>h. (u, h_id h, d)) ` set (habits s)"
      using h by (rule imageI)
    then show ?thesis using False by (simp only: count if_False if_True)
  qed
  have flag: "completed e = desired cs (h_id h)"
    if h: "h \<in> set (habits s)" and e: "e \<in> set ?es'" and k: "entry_key e = (u, h_id h, d)" for h e
  proof -
    have "h \<in> set (habits_by_id s)"
      using h by (simp add: set_habits_by_id)
    then have "map_option completed (find (\<lambda>e. entry_key e = (u, h_id h, d)) ?es') =
                 Some (desired cs (h_id h))"
      unfolding ent(1) by (rule fold_upsert_first)
    then show ?thesis
      using unique_find [OF uniq e] k by simp
  qed
  have place: "take (length ?es) ?es' =
           map (\<lambda>e. if user_id e = u \<and> date e = d \<and> habit_id e \<in> h_id ` set (habits s)
                     then e\<lparr>completed := desired cs (habit_id e)\<rparr> else e) ?es"
    unfolding ent(1) using assms(1)
    by (simp add: fold_upsert_take user_habit_date_unique_def set_habits_by_id)
  show ?thesis
    using any one flag place count by blast
qed

theorem save_habits_keeps_unique_witness:
  "user_habit_date_unique (habit_entries busy) \<and>
   user_habit_date_unique (habit_entries (snd (save_habits sample_strptime busy 7 (PDict sample_data)))) \<and>
   count_list (map entry_key (habit_entries (snd (save_habits sample_strptime busy 7 (PDict sample_data)))))
     (7, 3, 738886) = 1 \<and>
   take 3 (habit_entries (snd (save_habits sample_strptime busy 7 (PDict sample_data)))) =
     [\<lparr>user_id = 8, habit_id = 1, date = 738886, completed = True\<rparr>,
      \<lparr>user_id = 7, habit_id = 1, date = 738885, completed = True\<rparr>,
      \<lparr>user_id = 7, habit_id = 3, date = 738886, completed = False\<rparr>] \<and>
   length (habit_entries busy) = 3 \<and>
   length (habit_entries (snd (save_habits sample_strptime busy 7 (PDict sample_data)))) = 17"
proof -
  note t = save_habits_keeps_unique [where strptime = sample_strptime and ds = "''2024-01-01''"
      and u = 7 and body = "PDict sample_data",
      OF busy_unique sample_data_valid(1) _ sample_data_valid(2) sample_data_valid(3)]
  have ne: "''2024-01-01'' \<noteq> []"
    by simp
  have h3: "\<lparr>h_id = 3, h_name = ''Read''\<rparr> \<in> set (habits busy)"
    by (simp add: busy_habits seeded_habits)
  have a: "user_habit_date_unique (habit_entries (snd (save_habits sample_strptime busy 7 (PDict sample_data))))"
    by (rule t [OF ne, THEN conjunct1])
  have "count_list (map entry_key (habit_entries (snd (save_habits sample_strptime busy 7 (PDict sample_data)))))
          (7, h_id \<lparr>h_id = 3, h_name = ''Read''\<rparr>, 738886) = 1"
    by (rule t [OF ne, THEN conjunct2, THEN conjunct1, rule_format, OF h3])
  then have b: "count_list (map entry_key (habit_entries (snd (save_habits sample_strptime busy 7 (PDict sample_data)))))
          (7, 3, 738886) = 1"
    by simp
  have c: "take 3 (habit_entries (snd (save_habits sample_strptime busy 7 (PDict sample_data)))) =
     [\<lparr>user_id = 8, habit_id = 1, date = 738886, completed = True\<rparr>,
      \<lparr>user_id = 7, habit_id = 1, date = 738885, completed = True\<rparr>,
      \<lparr>user_id = 7, habit_id = 3, date = 738886, completed = False\<rparr>]"
    and d: "length (habit_entries busy) = 3"
    and e: "length (habit_entries (snd (save_habits sample_strptime busy 7 (PDict sample_data)))) = 17"
    by code_simp+
  from busy_unique a b c d e show ?thesis
    by (intro conjI)
qed

text \<open>
  C8. Saving twice with the same input is saving once: run on the database that the first
  call left, \<open>save_habits\<close> returns the same response (so the same percentage) and
  leaves the same database, with no row added.
\<close>

theorem save_habits_idempotent:
  "save_habits strptime (snd (save_habits strptime s u body)) u body = save_habits strptime s u body"
proof -
  consider (fail) e where "\<forall>s. save_habits strptime s u body = (Inl e, s)"
    | (ok) d cs where "\<forall>s. save_habits strptime s u body =
                         (Inr (fst (save_completions s u d cs)), snd (save_completions s u d cs))"
    using save_habits_cases [of strptime u body] by blast
  then show ?thesis
  proof cases
    case fail
    then show ?thesis by simp
  next
    case ok
    then show ?thesis
      by (simp add: save_completions_eq habits_by_id_def fold_upsert_idem)
  qed
qed

theorem save_habits_idempotent_witness:
  "save_habits sample_strptime (snd (save_habits sample_strptime seeded 7 (PDict sample_data))) 7 (PDict sample_data) =
     save_habits sample_strptime seeded 7 (PDict sample_data) \<and>
   fst (save_habits sample_strptime (snd (save_habits sample_strptime seeded 7 (PDict sample_data))) 7 (PDict sample_data)) =
     Inr (''Habits saved.'', 40 / 3)"
  using save_habits_idempotent [of sample_strptime seeded 7 "PDict sample_data"] sample_save_response
  by simp

text \<open>
  C9. In \<open>save_habits\<close> a habit's desired state is completed exactly when the value
  under its string-encoded id is truthy or the value under its native id is truthy, and
  that is the flag of the row the loop writes for the habit. So a falsy value under the
  string key with a truthy value under the native key leaves a completed row for the
  habit.
\<close>

theorem save_habits_either_key:
  assumes "dict_get data (KStr ''date'') = PStr ds" and "ds \<noteq> []" and "strptime ds = Some d"
    and "dict_get data (KStr ''completions'') = PDict cs"
    and "h \<in> set (habits s)"
  shows "desired cs (h_id h) =
           (truthy (dict_get cs (KStr (str (h_id h)))) \<or> truthy (dict_get cs (KInt (h_id h)))) \<and>
         map_option completed
           (find (\<lambda>e. entry_key e = (u, h_id h, d))
              (habit_entries (snd (save_habits strptime s u (PDict data))))) =
           Some (truthy (dict_get cs (KStr (str (h_id h)))) \<or> truthy (dict_get cs (KInt (h_id h)))) \<and>
         (\<not> truthy (dict_get cs (KStr (str (h_id h)))) \<and> truthy (dict_get cs (KInt (h_id h))) \<longrightarrow>
            (\<exists>e \<in> set (habit_entries (snd (save_habits strptime s u (PDict data)))).
               entry_key e = (u, h_id h, d) \<and> completed e))"
proof -
  let ?es' = "habit_entries (snd (save_habits strptime s u (PDict data)))"
  have "h \<in> set (habits_by_id s)"
    using assms(5) by (simp add: set_habits_by_id)
  then have first: "map_option completed (find (\<lambda>e. entry_key e = (u, h_id h, d)) ?es') =
                      Some (desired cs (h_id h))"
    by (simp add: save_habits_entries(1) [where strptime = strptime and ds = ds, OF assms(1-4)] fold_upsert_first)
  have "\<exists>e \<in> set ?es'. entry_key e = (u, h_id h, d) \<and> completed e" if des: "desired cs (h_id h)"
  proof -
    obtain e where "find (\<lambda>e. entry_key e = (u, h_id h, d)) ?es' = Some e" and "completed e"
      using first des by auto
    then show ?thesis
      using find_in_set [of "\<lambda>e. entry_key e = (u, h_id h, d)" ?es' e] by auto
  qed
  then show ?thesis
    using first by (auto simp: desired_eq)
qed

theorem save_habits_either_key_witness:
  "\<not> truthy (dict_get mixed_completions (KStr (str 3))) \<and>
   truthy (dict_get mixed_completions (KInt 3)) \<and>
   (\<exists>e \<in> set (habit_entries (snd (save_habits sample_strptime seeded 7 (PDict mixed_data)))).
      entry_key e = (7, 3, 738886) \<and> completed e)"
proof -
  have h: "\<lparr>h_id = 3, h_name = ''Read''\<rparr> \<in> set (habits seeded)"
    by (simp add: seeded_habits)
  have k: "\<not> truthy (dict_get mixed_completions (KStr (str 3)))" "truthy (dict_get mixed_completions (KInt 3))"
    by code_simp+
  show ?thesis
    using k save_habits_either_key [where strptime = sample_strptime and ds = "''2024-01-01''" and u = 7,
        OF mixed_data_valid(1) _ sample_data_valid(2) mixed_data_valid(2) h]
    by simp
qed

text \<open>
  C10. A successful \<open>save_habits\<close> for user \<open>u\<close> and date \<open>d\<close> leaves the
  catalog as it was, and the rows of any other user or any other date are the same rows
  in the same order after the call as before.
\<close>

theorem save_habits_frame:
  assumes "dict_get data (KStr ''date'') = PStr ds" and "ds \<noteq> []" and "strptime ds = Some d"
    and "dict_get data (KStr ''completions'') = PDict cs"
  shows "habits (snd (save_habits strptime s u (PDict data))) = habits s \<and>
         filter (\<lambda>e. user_id e \<noteq> u \<or> date e \<noteq> d)
           (habit_entries (snd (save_habits strptime s u (PDict data)))) =
         filter (\<lambda>e. user_id e \<noteq> u \<or> date e \<noteq> d) (habit_entries s)"
  by (simp add: save_habits_entries [where strptime = strptime and ds = ds, OF assms] fold_upsert_frame)

theorem save_habits_frame_witness:
  "habits (snd (save_habits sample_strptime busy 7 (PDict sample_data))) = habits busy \<and>
   filter (\<lambda>e. user_id e \<noteq> 7 \<or> date e \<noteq> 738886)
     (habit_entries (snd (save_habits sample_strptime busy 7 (PDict sample_data)))) =
   [\<lparr>user_id = 8, habit_id = 1, date = 738886, completed = True\<rparr>,
    \<lparr>user_id = 7, habit_id = 1, date = 738885, completed = True\<rparr>]"
  using save_habits_frame [where strptime = sample_strptime and ds = "''2024-01-01''" and u = 7 and s = busy,
      OF sample_data_valid(1) _ sample_data_valid(2) sample_data_valid(3)]
  by (simp add: busy_def)

text \<open>
  C4. On a well-formed request \<open>save_habits\<close> answers with the percentage
  completed_count / total_habit_count * 100, where completed_count is the number of
  catalog habits whose id has a truthy value in the mapping under its string-encoded or
  its native form, and 0 when the catalog is empty. Afterwards every catalog habit has a
  row for the user and date, and its flag is that desired state. With the empty mapping
  the percentage is 0 and no catalog habit has a completed row for the user and date.
  (The ledger is assumed to satisfy its uniqueness constraint before the call.)
\<close>

theorem save_habits_percentage:
  assumes "user_habit_date_unique (habit_entries s)"
    and "dict_get data (KStr ''date'') = PStr ds" and "ds \<noteq> []" and "strptime ds = Some d"
    and "dict_get data (KStr ''completions'') = PDict cs"
  shows "fst (save_habits strptime s u (PDict data)) =
           Inr (''Habits saved.'',
                if habits s = [] then 0
                else of_nat (length (filter (\<lambda>h. truthy (dict_get cs (KStr (str (h_id h)))) \<or>
                                                  truthy (dict_get cs (KInt (h_id h)))) (habits s)))
                     / of_nat (length (habits s)) * 100) \<and>
         (\<forall>h \<in> set (habits s).
            (\<exists>e \<in> set (habit_entries (snd (save_habits strptime s u (PDict data)))).
               entry_key e = (u, h_id h, d)) \<and>
            (\<forall>e \<in> set (habit_entries (snd (save_habits strptime s u (PDict data)))).
               entry_key e = (u, h_id h, d) \<longrightarrow>
               completed e = (truthy (dict_get cs (KStr (str (h_id h)))) \<or>
                              truthy (dict_get cs (KInt (h_id h)))))) \<and>
         (cs = [] \<longrightarrow>
            fst (save_habits strptime s u (PDict data)) = Inr (''Habits saved.'', 0) \<and>
            (\<forall>h \<in> set (habits s).
               \<forall>e \<in> set (habit_entries (snd (save_habits strptime s u (PDict data)))).
                 entry_key e = (u, h_id h, d) \<longrightarrow> \<not> completed e))"
proof -
  let ?es' = "habit_entries (snd (save_habits strptime s u (PDict data)))"
  note ent = save_habits_entries [where strptime = strptime and ds = ds and s = s and u = u, OF assms(2-5)]
  have uniq: "user_habit_date_unique ?es'"
    unfolding ent(1) using assms(1) by (rule fold_upsert_unique)
  have resp: "fst (save_habits strptime s u (PDict data)) =
           Inr (''Habits saved.'',
                if habits s = [] then 0
                else of_nat (length (filter (\<lambda>h. truthy (dict_get cs (KStr (str (h_id h)))) \<or>
                                                  truthy (dict_get cs (KInt (h_id h)))) (habits s)))
                     / of_nat (length (habits s)) * 100)"
    by (simp add: ent(3) desired_eq)
  have rows: "(\<exists>e \<in> set ?es'. entry_key e = (u, h_id h, d)) \<and>
              (\<forall>e \<in> set ?es'. entry_key e = (u, h_id h, d) \<longrightarrow> completed e = desired cs (h_id h))"
    if "h \<in> set (habits s)" for h
  proof -
    have "h \<in> set (habits_by_id s)"
      using that by (simp add: set_habits_by_id)
    then have first: "map_option completed (find (\<lambda>e. entry_key e = (u, h_id h, d)) ?es') =
                        Some (desired cs (h_id h))"
      by (simp add: ent(1) fold_upsert_first)
    then obtain e0 where e0: "find (\<lambda>e. entry_key e = (u, h_id h, d)) ?es' = Some e0"
      and c0: "completed e0 = desired cs (h_id h)"
      by auto
    have "e0 \<in> set ?es' \<and> entry_key e0 = (u, h_id h, d)"
      using find_in_set [OF e0] .
    moreover have "completed e = desired cs (h_id h)"
      if "e \<in> set ?es'" and "entry_key e = (u, h_id h, d)" for e
      using unique_find [OF uniq that(1)] that(2) e0 c0 by simp
    ultimately show ?thesis by blast
  qed
  have empty: "\<not> desired [] i" for i
    by (simp add: desired_def py_or_def dict_get_def)
  have "fst (save_habits strptime s u (PDict data)) = Inr (''Habits saved.'', 0)" if "cs = []"
    using that by (simp add: ent(3) empty)
  moreover have "\<forall>h \<in> set (habits s). \<forall>e \<in> set ?es'. entry_key e = (u, h_id h, d) \<longrightarrow> \<not> completed e"
    if "cs = []"
    using rows that empty by blast
  ultimately show ?thesis
    using resp rows by (simp add: desired_eq)
qed

theorem save_habits_percentage_witness:
  "user_habit_date_unique (habit_entries busy) \<and>
   fst (save_habits sample_strptime busy 7 (PDict empty_data)) = Inr (''Habits saved.'', 0)"
  using busy_unique
    save_habits_percentage [where strptime = sample_strptime and ds = "''2024-01-01''" and u = 7,
      OF busy_unique empty_data_valid(1) _ sample_data_valid(2) empty_data_valid(2)]
  by blast

text \<open>
  C2. With a date that parses (or none, which means today), \<open>get_habits\<close> answers
  with one record per catalog habit, in ascending order of habit id: the list has the
  length of the catalog and holds each habit as often as the catalog does. A record's
  \<open>completed\<close> is true exactly when the ledger has a completed row for the user, the
  habit and the date, so a habit with no row is reported not completed and the call does
  not fail. (The ledger is assumed to satisfy its uniqueness constraint.)
\<close>

theorem get_habits_total:
  assumes "user_habit_date_unique (habit_entries s)"
    and "date_arg strptime today date_str = Inr d"
  shows "get_habits strptime today s u date_str =
           Inr (d, map (\<lambda>h. \<lparr>r_id = h_id h, r_name = h_name h,
                              r_completed =
                                (\<exists>e \<in> set (habit_entries s).
                                   user_id e = u \<and> habit_id e = h_id h \<and> date e = d \<and> completed e)\<rparr>)
                     (habits_by_id s)) \<and>
         length (habits_by_id s) = length (habits s) \<and>
         sorted (map h_id (habits_by_id s)) \<and>
         (\<forall>h. count_list (habits_by_id s) h = count_list (habits s) h)"
proof -
  have "(map_option completed (find (\<lambda>e. entry_key e = (u, i, d)) (habit_entries s)) = Some True) =
        (\<exists>e \<in> set (habit_entries s). user_id e = u \<and> habit_id e = i \<and> date e = d \<and> completed e)" for i
    using find_completed_iff [OF assms(1), of "(u, i, d)"] by (auto simp: entry_key_def)
  then show ?thesis
    by (simp add: get_habits_find [OF assms] habits_by_id_def count_list_sort_key)
qed

theorem get_habits_total_witness:
  "user_habit_date_unique (habit_entries busy) \<and>
   date_arg sample_strptime 0 (Some ''2024-01-01'') = Inr 738886 \<and>
   (\<exists>rs. get_habits sample_strptime 0 busy 7 (Some ''2024-01-01'') = Inr (738886, rs) \<and> length rs = 15)"
proof -
  have d: "date_arg sample_strptime 0 (Some ''2024-01-01'') = Inr 738886"
    by (simp add: date_arg_Some sample_data_valid(2))
  have n: "length (habits busy) = 15"
    by (simp add: busy_habits seeded_habits)
  show ?thesis
    using busy_unique d n get_habits_total [OF busy_unique d, of 7]
    by simp
qed

text \<open>
  C3. After \<open>save_habits\<close> on a well-formed request, \<open>get_habits\<close> for the same
  user and date reports for each catalog habit the state submitted for it: true when the
  mapping has a truthy value under the habit's string-encoded or native id, false
  otherwise. A request whose mapping agrees with this one on the keys of the catalog
  habits has the same response and leaves the same database, so the other keys have no
  effect. (The ledger is assumed to satisfy its uniqueness constraint before the save.)
\<close>

theorem save_then_get_habits:
  assumes "user_habit_date_unique (habit_entries s)"
    and "dict_get data (KStr ''date'') = PStr ds" and "ds \<noteq> []" and "strptime ds = Some d"
    and "dict_get data (KStr ''completions'') = PDict cs"
  shows "get_habits strptime today (snd (save_habits strptime s u (PDict data))) u (Some ds) =
           Inr (d, map (\<lambda>h. \<lparr>r_id = h_id h, r_name = h_name h,
                              r_completed = (truthy (dict_get cs (KStr (str (h_id h)))) \<or>
                                             truthy (dict_get cs (KInt (h_id h))))\<rparr>)
                     (habits_by_id s)) \<and>
         (\<forall>data' cs'.
            dict_get data' (KStr ''date'') = PStr ds \<and>
            dict_get data' (KStr ''completions'') = PDict cs' \<and>
            (\<forall>h \<in> set (habits s).
               dict_get cs' (KStr (str (h_id h))) = dict_get cs (KStr (str (h_id h))) \<and>
               dict_get cs' (KInt (h_id h)) = dict_get cs (KInt (h_id h))) \<longrightarrow>
            save_habits strptime s u (PDict data') = save_habits strptime s u (PDict data))"
proof -
  let ?s' = "snd (save_habits strptime s u (PDict data))"
  note ent = save_habits_entries [where strptime = strptime and ds = ds and s = s and u = u, OF assms(2-5)]
  have uniq: "user_habit_date_unique (habit_entries ?s')"
    unfolding ent(1) using assms(1) by (rule fold_upsert_unique)
  have hs: "habits_by_id ?s' = habits_by_id s"
    by (simp add: habits_by_id_def ent(2))
  have "get_habits strptime today ?s' u (Some ds) =
           Inr (d, map (\<lambda>h. \<lparr>r_id = h_id h, r_name = h_name h,
                              r_completed =
                                (map_option completed
                                   (find (\<lambda>e. entry_key e = (u, h_id h, d)) (habit_entries ?s')) = Some True)\<rparr>)
                     (habits_by_id s))"
    using get_habits_find [OF uniq date_arg_Some [where strptime = strptime and ds = ds, OF assms(3,4)], of today u]
    by (simp add: hs)
  moreover have "(map_option completed
                    (find (\<lambda>e. entry_key e = (u, h_id h, d)) (habit_entries ?s')) = Some True) =
                 (truthy (dict_get cs (KStr (str (h_id h)))) \<or> truthy (dict_get cs (KInt (h_id h))))"
    if "h \<in> set (habits_by_id s)" for h
    unfolding ent(1) fold_upsert_first [OF that] by (simp add: desired_eq)
  ultimately have read: "get_habits strptime today ?s' u (Some ds) =
           Inr (d, map (\<lambda>h. \<lparr>r_id = h_id h, r_name = h_name h,
                              r_completed = (truthy (dict_get cs (KStr (str (h_id h)))) \<or>
                                             truthy (dict_get cs (KInt (h_id h))))\<rparr>)
                     (habits_by_id s))"
    by (simp cong: map_cong)
  have "save_habits strptime s u (PDict data') = save_habits strptime s u (PDict data)"
    if d': "dict_get data' (KStr ''date'') = PStr ds"
      and c': "dict_get data' (KStr ''completions'') = PDict cs'"
      and same: "\<forall>h \<in> set (habits s).
               dict_get cs' (KStr (str (h_id h))) = dict_get cs (KStr (str (h_id h))) \<and>
               dict_get cs' (KInt (h_id h)) = dict_get cs (KInt (h_id h))"
    for data' cs'
  proof -
    have des: "desired cs' (h_id h) = desired cs (h_id h)" if "h \<in> set (habits s)" for h
      using same that by (simp add: desired_def)
    have "filter (\<lambda>h. desired cs' (h_id h)) (habits s) = filter (\<lambda>h. desired cs (h_id h)) (habits s)"
      using des by (simp cong: filter_cong)
    moreover have "fold (\<lambda>h. upsert u (h_id h) d (desired cs' (h_id h))) (habits_by_id s) (habit_entries s) =
                   fold (\<lambda>h. upsert u (h_id h) d (desired cs (h_id h))) (habits_by_id s) (habit_entries s)"
      using des by (intro fold_cong) (simp_all add: set_habits_by_id)
    ultimately have "save_completions s u d cs' = save_completions s u d cs"
      by (simp add: save_completions_eq)
    then show ?thesis
      using save_habits_valid [where strptime = strptime and ds = ds, OF d' assms(3,4) c']
        save_habits_valid [where strptime = strptime and ds = ds, OF assms(2-5)]
      by simp
  qed
  then show ?thesis
    using read by blast
qed

theorem save_then_get_habits_witness:
  "user_habit_date_unique (habit_entries busy) \<and>
   map r_completed (snd (projr (get_habits sample_strptime 0
       (snd (save_habits sample_strptime busy 7 (PDict sample_data))) 7 (Some ''2024-01-01'')))) =
     [True, True, False, False, False, False, False, False, False, False, False, False, False, False, False]"
proof -
  have "map (\<lambda>h. truthy (dict_get sample_completions (KStr (str (h_id h)))) \<or>
                  truthy (dict_get sample_completions (KInt (h_id h)))) (habits_by_id busy) =
        [True, True, False, False, False, False, False, False, False, False, False, False, False, False, False]"
    by code_simp
  then show ?thesis
    using busy_unique
      save_then_get_habits [where strptime = sample_strptime and ds = "''2024-01-01''" and u = 7 and today = 0,
        OF busy_unique sample_data_valid(1) _ sample_data_valid(2) sample_data_valid(3)]
    by (simp add: comp_def)
qed

text \<open>
  C7, as the code has it. \<open>save_habits\<close> answers 400 and leaves the database as it
  was when the date is missing or falsy or \<open>completions\<close> is not a dictionary, and
  when the date is a string that does not parse; a body that is empty or falsy counts as
  one with no fields. \<open>progress\<close> answers 400 when
  \<open>end_date\<close> is a non-empty string that does not parse, and when the period, put in
  lower case, is neither \<open>weekly\<close> nor \<open>monthly\<close>. In each case the answer is the
  same for every database: neither table is read. An empty \<open>end_date\<close> is not an
  error: \<open>progress\<close> serves it as it serves an absent one, with today's date.
\<close>

theorem validation_errors:
  "(\<not> truthy (dict_get data (KStr ''date'')) \<or> \<not> is_dict (dict_get data (KStr ''completions'')) \<longrightarrow>
      (\<forall>s. save_habits strptime s u (PDict data) =
             (Inl (BadRequest ''Invalid payload. 'date' and 'completions' are required.''), s))) \<and>
   (dict_get data (KStr ''date'') = PStr ds \<and> ds \<noteq> [] \<and> strptime ds = None \<and>
    is_dict (dict_get data (KStr ''completions'')) \<longrightarrow>
      (\<forall>s. save_habits strptime s u (PDict data) =
             (Inl (BadRequest ''Date must be in YYYY-MM-DD format''), s))) \<and>
   (end_date_str = Some ds \<and> ds \<noteq> [] \<and> strptime ds = None \<longrightarrow>
      (\<forall>s. progress strptime today s u period_arg end_date_str =
             Inl (BadRequest ''Date must be in YYYY-MM-DD format''))) \<and>
   (lower (case period_arg of None \<Rightarrow> ''weekly'' | Some p \<Rightarrow> p) \<noteq> ''weekly'' \<and>
    lower (case period_arg of None \<Rightarrow> ''weekly'' | Some p \<Rightarrow> p) \<noteq> ''monthly'' \<longrightarrow>
      (\<exists>msg. \<forall>s. progress strptime today s u period_arg end_date_str = Inl (BadRequest msg))) \<and>
   (\<not> truthy body \<longrightarrow>
      (\<forall>s. save_habits strptime s u body =
             (Inl (BadRequest ''Invalid payload. 'date' and 'completions' are required.''), s))) \<and>
   (\<forall>s. progress strptime today s u period_arg (Some []) = progress strptime today s u period_arg None)"
proof (intro conjI impI allI)
  fix s
  show "progress strptime today s u period_arg (Some []) = progress strptime today s u period_arg None"
    by (simp add: progress_def date_arg_def)
next
  fix s
  assume "\<not> truthy body"
  then have "save_habits strptime s u body = save_habits strptime s u (PDict [])"
    by (rule save_habits_falsy)
  also have "\<dots> = (Inl (BadRequest ''Invalid payload. 'date' and 'completions' are required.''), s)"
    by (rule save_habits_invalid_payload) (simp add: dict_get_def)
  finally show "save_habits strptime s u body =
                  (Inl (BadRequest ''Invalid payload. 'date' and 'completions' are required.''), s)" .
next
  fix s
  assume "\<not> truthy (dict_get data (KStr ''date'')) \<or> \<not> is_dict (dict_get data (KStr ''completions''))"
  then show "save_habits strptime s u (PDict data) =
               (Inl (BadRequest ''Invalid payload. 'date' and 'completions' are required.''), s)"
    by (rule save_habits_invalid_payload)
next
  fix s
  assume "dict_get data (KStr ''date'') = PStr ds \<and> ds \<noteq> [] \<and> strptime ds = None \<and>
          is_dict (dict_get data (KStr ''completions''))"
  then show "save_habits strptime s u (PDict data) =
               (Inl (BadRequest ''Date must be in YYYY-MM-DD format''), s)"
    by (elim conjE) (rule save_habits_bad_date, assumption+)
next
  fix s
  assume "end_date_str = Some ds \<and> ds \<noteq> [] \<and> strptime ds = None"
  then have "date_arg strptime today end_date_str = Inl ''Date must be in YYYY-MM-DD format''"
    by (simp add: date_arg_cases)
  then show "progress strptime today s u period_arg end_date_str =
               Inl (BadRequest ''Date must be in YYYY-MM-DD format'')"
    by (rule progress_bad_date)
next
  assume bad: "lower (case period_arg of None \<Rightarrow> ''weekly'' | Some p \<Rightarrow> p) \<noteq> ''weekly'' \<and>
               lower (case period_arg of None \<Rightarrow> ''weekly'' | Some p \<Rightarrow> p) \<noteq> ''monthly''"
  show "\<exists>msg. \<forall>s. progress strptime today s u period_arg end_date_str = Inl (BadRequest msg)"
  proof (cases "date_arg strptime today end_date_str")
    case (Inl msg)
    then show ?thesis using progress_bad_date by blast
  next
    case (Inr end_date)
    then show ?thesis using progress_bad_period bad by blast
  qed
qed

theorem validation_errors_witness:
  "save_habits sample_strptime busy 7 (PDict bad_date_data) =
     (Inl (BadRequest ''Date must be in YYYY-MM-DD format''), busy) \<and>
   save_habits sample_strptime busy 7 (PDict []) =
     (Inl (BadRequest ''Invalid payload. 'date' and 'completions' are required.''), busy) \<and>
   isl (progress sample_strptime 0 busy 7 (Some ''yearly'') (Some ''2024-01-07''))"
proof -
  note v = validation_errors [where strptime = sample_strptime and today = 0 and u = 7]
  have a: "save_habits sample_strptime busy 7 (PDict bad_date_data) =
             (Inl (BadRequest ''Date must be in YYYY-MM-DD format''), busy)"
    by (rule v [where data = bad_date_data and ds = "''01/01/2024''", THEN conjunct2, THEN conjunct1, rule_format])
       (simp add: bad_date_data_shape)
  have b: "save_habits sample_strptime busy 7 (PDict []) =
             (Inl (BadRequest ''Invalid payload. 'date' and 'completions' are required.''), busy)"
    by (rule v [where data = "[]", THEN conjunct1, rule_format]) (simp add: dict_get_def)
  have "\<exists>msg. \<forall>s. progress sample_strptime 0 s 7 (Some ''yearly'') (Some ''2024-01-07'') =
                      Inl (BadRequest msg)"
    by (rule v [where period_arg = "Some ''yearly''" and end_date_str = "Some ''2024-01-07''",
                THEN conjunct2, THEN conjunct2, THEN conjunct2, THEN conjunct1, THEN mp])
       (simp add: lower_yearly)
  then obtain msg where "progress sample_strptime 0 busy 7 (Some ''yearly'') (Some ''2024-01-07'') =
                           Inl (BadRequest msg)"
    by (elim exE allE)
  then have c: "isl (progress sample_strptime 0 busy 7 (Some ''yearly'') (Some ''2024-01-07''))"
    by simp
  from a b c show ?thesis by (intro conjI)
qed

text \<open>
  The period is compared after \<open>lower()\<close>: \<open>WEEKLY\<close> is neither of the two
  literal values, and the request is served as a weekly one.
\<close>

theorem upper_case_period_counterexample:
  "''WEEKLY'' \<noteq> ''weekly'' \<and> ''WEEKLY'' \<noteq> ''monthly'' \<and>
   map_sum id resp_period (progress sample_strptime 0 seeded 7 (Some ''WEEKLY'') (Some ''2024-01-07'')) =
     Inr ''weekly''"
  by code_simp

text \<open>
  C5, as the code has it. When the end date is at least 6 days (weekly) or 29 days
  (monthly) after 0001-01-01 and before 9999-12-31, \<open>progress\<close> answers with the
  window that starts 6 or 29 days before the end date, both days included, so 7 or 30
  days long, and \<open>total_days\<close> is that length for every habit of the catalog. (The
  catalog is assumed to satisfy its primary key.)
\<close>

theorem progress_total_days:
  assumes "habit_primary_key (habits s)"
    and "date_arg strptime today end_date_str = Inr end_date"
    and "lower (case period_arg of None \<Rightarrow> ''weekly'' | Some p \<Rightarrow> p) = ''weekly'' \<and> n = 7 \<or>
         lower (case period_arg of None \<Rightarrow> ''weekly'' | Some p \<Rightarrow> p) = ''monthly'' \<and> n = 30"
    and "MINORDINAL \<le> end_date - (int n - 1)"
    and "end_date < MAXORDINAL"
  shows "\<exists>resp. progress strptime today s u period_arg end_date_str = Inr resp \<and>
           resp_start_date resp = end_date - (int n - 1) \<and>
           resp_end_date resp = end_date \<and>
           length [resp_start_date resp .. resp_end_date resp] = n \<and>
           length (resp_habits resp) = length (habits s) \<and>
           (\<forall>st \<in> set (resp_habits resp). total_days st = n)"
proof -
  have "0 < n" using assms(3) by auto
  then have "length [end_date - (int n - 1) .. end_date] = n"
    by (simp add: length_upto)
  moreover have "length (habits_by_id s) = length (habits s)"
    by (simp add: habits_by_id_def)
  ultimately show ?thesis
    unfolding progress_window [OF assms] by auto
qed

theorem progress_total_days_witness:
  "habit_primary_key (habits seeded) \<and>
   date_arg sample_strptime 0 (Some ''2024-01-07'') = Inr 738892 \<and>
   map_sum id resp_start_date (progress sample_strptime 0 seeded 7 (Some ''weekly'') (Some ''2024-01-07'')) =
     Inr 738886"
proof -
  have p: "lower (case Some ''weekly'' of None \<Rightarrow> ''weekly'' | Some p \<Rightarrow> p) = ''weekly'' \<and> (7::nat) = 7 \<or>
           lower (case Some ''weekly'' of None \<Rightarrow> ''weekly'' | Some p \<Rightarrow> p) = ''monthly'' \<and> (7::nat) = 30"
    by (simp add: lower_weekly)
  obtain resp where "progress sample_strptime 0 seeded 7 (Some ''weekly'') (Some ''2024-01-07'') = Inr resp"
    and "resp_start_date resp = 738892 - (int 7 - 1)"
    using progress_total_days [OF seeded_primary_key sample_end_date p sample_week_range, of 7]
    by (elim exE conjE)
  then have "map_sum id resp_start_date
               (progress sample_strptime 0 seeded 7 (Some ''weekly'') (Some ''2024-01-07'')) = Inr 738886"
    by simp
  then show ?thesis
    using seeded_primary_key sample_end_date by (intro conjI)
qed

text \<open>
  For the end date 0001-01-03 the start of the weekly window would lie before the first
  date there is: the subtraction raises \<open>OverflowError\<close> and nothing is returned.
\<close>

theorem progress_start_overflow_counterexample:
  "progress sample_strptime 0 seeded 7 (Some ''weekly'') (Some ''0001-01-03'') = Inl OverflowError"
  by code_simp

text \<open>
  C6, as the code has it. For the same end dates \<open>progress\<close> reports for each catalog
  habit, in ascending order of habit id, \<open>completed_days\<close> as the number of days of the
  window on which the ledger has a completed row for the user and the habit,
  \<open>total_days\<close> as the length of the window, and \<open>percentage\<close> as
  completed_days / total_days * 100 rounded to two decimals: 14.29 for one day of seven.
  Statistics with \<open>total_days = 0\<close> get the percentage 0. (Floats are exact
  rationals here; the catalog and the ledger are assumed to satisfy their key
  constraints.)
\<close>

theorem progress_completed_days:
  assumes "habit_primary_key (habits s)"
    and "user_habit_date_unique (habit_entries s)"
    and "date_arg strptime today end_date_str = Inr end_date"
    and "lower (case period_arg of None \<Rightarrow> ''weekly'' | Some p \<Rightarrow> p) = ''weekly'' \<and> n = 7 \<or>
         lower (case period_arg of None \<Rightarrow> ''weekly'' | Some p \<Rightarrow> p) = ''monthly'' \<and> n = 30"
    and "MINORDINAL \<le> end_date - (int n - 1)"
    and "end_date < MAXORDINAL"
  shows "progress strptime today s u period_arg end_date_str =
           Inr \<lparr>resp_start_date = end_date - (int n - 1), resp_end_date = end_date,
                resp_period = lower (case period_arg of None \<Rightarrow> ''weekly'' | Some p \<Rightarrow> p),
                resp_habits =
                  map (\<lambda>h. \<lparr>s_id = h_id h, s_name = h_name h,
                             completed_days =
                               length (filter (\<lambda>d. \<exists>e \<in> set (habit_entries s).
                                                      user_id e = u \<and> habit_id e = h_id h \<and>
                                                      date e = d \<and> completed e)
                                         [end_date - (int n - 1) .. end_date]),
                             total_days = n,
                             percentage =
                               round2 (of_nat (length (filter (\<lambda>d. \<exists>e \<in> set (habit_entries s).
                                                      user_id e = u \<and> habit_id e = h_id h \<and>
                                                      date e = d \<and> completed e)
                                                          [end_date - (int n - 1) .. end_date]))
                                       / of_nat n * 100)\<rparr>)
                      (habits_by_id s)\<rparr> \<and>
         (\<forall>st. total_days st = 0 \<longrightarrow> percentage (with_percentage st) = 0) \<and>
         round2 (1 / 7 * 100) = 1429 / 100"
proof -
  have "\<forall>st. total_days st = 0 \<longrightarrow> percentage (with_percentage st) = 0"
    by (simp add: with_percentage_def stats.defs habit_progress.defs)
  moreover have "round2 (1 / 7 * 100) = 1429 / 100"
    by code_simp
  ultimately show ?thesis
    unfolding progress_window [OF assms(1,3-6)] day_map_completed [OF assms(2)] by simp
qed

theorem progress_completed_days_witness:
  "habit_primary_key (habits saved_sample) \<and>
   user_habit_date_unique (habit_entries saved_sample) \<and>
   map_sum id (\<lambda>r. map (\<lambda>p. (s_id p, completed_days p, total_days p, percentage p)) (take 3 (resp_habits r)))
     (progress sample_strptime 0 saved_sample 7 (Some ''weekly'') (Some ''2024-01-07'')) =
     Inr [(1, 1, 7, 1429 / 100), (2, 1, 7, 1429 / 100), (3, 0, 7, 0)]"
proof -
  have pk: "habit_primary_key (habits saved_sample)"
    by (simp add: saved_sample_tables(1) seeded_primary_key)
  have p: "lower (case Some ''weekly'' of None \<Rightarrow> ''weekly'' | Some p \<Rightarrow> p) = ''weekly'' \<and> (7::nat) = 7 \<or>
           lower (case Some ''weekly'' of None \<Rightarrow> ''weekly'' | Some p \<Rightarrow> p) = ''monthly'' \<and> (7::nat) = 30"
    by (simp add: lower_weekly)
  have hs: "take 3 (habits_by_id saved_sample) =
              [\<lparr>h_id = 1, h_name = ''Wake early''\<rparr>, \<lparr>h_id = 2, h_name = ''Hydrate''\<rparr>,
               \<lparr>h_id = 3, h_name = ''Read''\<rparr>]"
    by (simp add: habits_by_id_def saved_sample_tables(1) seeded_habits)
  have es: "habit_entries saved_sample =
     map (\<lambda>i. \<lparr>user_id = 7, habit_id = i, date = 738886, completed = (i = 1 \<or> i = 2)\<rparr>) [1 .. 15]"
    by (rule saved_sample_entries)
  have days: "[738892 - (int 7 - 1) .. 738892] =
                [738886, 738887, 738888, 738889, 738890, 738891, 738892]"
    by code_simp
  note t = progress_completed_days [OF pk saved_sample_tables(2) sample_end_date p sample_week_range,
      where u = 7, THEN conjunct1]
  have "map_sum id (\<lambda>r. map (\<lambda>p. (s_id p, completed_days p, total_days p, percentage p)) (take 3 (resp_habits r)))
     (progress sample_strptime 0 saved_sample 7 (Some ''weekly'') (Some ''2024-01-07'')) =
     Inr [(1, 1, 7, 1429 / 100), (2, 1, 7, 1429 / 100), (3, 0, 7, 0)]"
    unfolding t days by (simp add: take_map hs es round2_samples)
  then show ?thesis
    using pk saved_sample_tables(2) by (intro conjI)
qed

text \<open>
  For the end date 0001-01-15 the start of the monthly window would lie before the first
  date there is, and \<open>progress\<close> reports nothing.
\<close>

theorem progress_month_overflow_counterexample:
  "progress sample_strptime 0 seeded 7 (Some ''monthly'') (Some ''0001-01-15'') = Inl OverflowError"
  by code_simp

end
